theory Spec2Isabelle
  imports Main "HOL-Library.Word"
begin

unbundle bit_operations_syntax

section \<open>Python strings\<close>

text \<open>
  A Python \<open>str\<close> is modelled as a \<open>string\<close>; a \<open>char\<close> stands for the code point of
  the same number, so the model covers the strings over the code points 0 to 255.
  NMEA sentences are ASCII.
\<close>

definition CR :: char where
  "CR = CHR 0x0D"

definition LF :: char where
  "LF = CHR 0x0A"

text \<open>\<open>str.isspace\<close> of one character, for the code points below 256.\<close>

definition is_space :: "char \<Rightarrow> bool" where
  "is_space c =
     (let n = (of_char c :: nat)
      in (9 \<le> n \<and> n \<le> 13) \<or> (28 \<le> n \<and> n \<le> 32) \<or> n = 133 \<or> n = 160)"

text \<open>
  The line boundaries of \<open>str.splitlines\<close> below code point 256: LF, VT, FF, CR, FS, GS,
  RS and NEL.
\<close>

definition is_linebreak :: "char \<Rightarrow> bool" where
  "is_linebreak c =
     (let n = (of_char c :: nat)
      in (10 \<le> n \<and> n \<le> 13) \<or> (28 \<le> n \<and> n \<le> 30) \<or> n = 133)"

text \<open>\<open>s.strip()\<close>: whitespace removed at both ends.\<close>

definition strip :: "string \<Rightarrow> string" where
  "strip s = rev (dropWhile is_space (rev (dropWhile is_space s)))"

text \<open>
  \<open>s.splitlines()\<close>: the scan of CPython, with the characters of the current line
  collected in reverse in \<open>acc\<close>. CR LF is one boundary; a boundary at the very end of
  the string opens no further line.
\<close>

fun splitlines_from :: "string \<Rightarrow> string \<Rightarrow> string list" where
  "splitlines_from acc [] = (if acc = [] then [] else [rev acc])"
| "splitlines_from acc [c] =
     (if is_linebreak c then [rev acc] else [rev (c # acc)])"
| "splitlines_from acc (c # d # cs) =
     (if c = CR \<and> d = LF then rev acc # splitlines_from [] cs
      else if is_linebreak c then rev acc # splitlines_from [] (d # cs)
      else splitlines_from (c # acc) (d # cs))"

definition splitlines :: "string \<Rightarrow> string list" where
  "splitlines s = splitlines_from [] s"

text \<open>\<open>s.startswith(p)\<close>.\<close>

definition startswith :: "string \<Rightarrow> string \<Rightarrow> bool" where
  "startswith s p = (take (length p) s = p)"

text \<open>
  \<open>s.encode()\<close>: UTF-8. A code point below 128 is one byte, one from 128 to 255 is two.
\<close>

type_synonym bytes = "8 word list"

definition utf8 :: "char \<Rightarrow> bytes" where
  "utf8 c =
     (let n = (of_char c :: nat)
      in if n < 128 then [of_nat n]
         else [of_nat (192 + n div 64), of_nat (128 + n mod 64)])"

definition encode :: "string \<Rightarrow> bytes" where
  "encode s = concat (map utf8 s)"

text \<open>\<open>str(n)\<close> of an integer, in decimal.\<close>

fun str_nat :: "nat \<Rightarrow> string" where
  "str_nat n =
     (if n < 10 then [''0123456789'' ! n]
      else str_nat (n div 10) @ [''0123456789'' ! (n mod 10)])"

definition str_int :: "int \<Rightarrow> string" where
  "str_int i = (if i < 0 then CHR ''-'' # str_nat (nat (- i)) else str_nat (nat i))"

section \<open>Exceptions\<close>

text \<open>
  The subclasses of \<open>Exception\<close> the program can meet. \<open>SystemExit\<close> is not one of them
  (an \<open>except Exception\<close> clause lets it pass): a function that ends in \<open>sys.exit\<close>
  returns the exit status instead.
\<close>

datatype exn =
    OSError
  | KeyError
  | ValueError
  | TypeError
  | RuntimeError string
  | DBusException string

text \<open>
  \<open>int(s)\<close> of a string, base 10: optional whitespace around, an optional sign, digits
  with single underscores allowed between them, and no more digits than the limit of
  the interpreter (4300 unless it is changed, which the program does not do); anything
  else raises \<open>ValueError\<close>. The whitespace \<open>int\<close> skips is not that of \<open>str.strip\<close>:
  below code point 256 it is TAB, LF, VT, FF, CR, the space, NEL and the no-break space,
  without the separators FS, GS, RS and US.
\<close>

definition is_int_space :: "char \<Rightarrow> bool" where
  "is_int_space c =
     (let n = (of_char c :: nat)
      in (9 \<le> n \<and> n \<le> 13) \<or> n = 32 \<or> n = 133 \<or> n = 160)"

definition int_strip :: "string \<Rightarrow> string" where
  "int_strip s = rev (dropWhile is_int_space (rev (dropWhile is_int_space s)))"

definition int_max_str_digits :: nat where
  "int_max_str_digits = 4300"

definition is_digit :: "char \<Rightarrow> bool" where
  "is_digit c = (let n = (of_char c :: nat) in 48 \<le> n \<and> n \<le> 57)"

definition digit_val :: "char \<Rightarrow> nat" where
  "digit_val c = of_char c - 48"

fun parse_digits :: "nat \<Rightarrow> string \<Rightarrow> nat option" where
  "parse_digits acc [] = Some acc"
| "parse_digits acc [c] =
     (if is_digit c then Some (acc * 10 + digit_val c) else None)"
| "parse_digits acc (c # d # cs) =
     (if is_digit c then parse_digits (acc * 10 + digit_val c) (d # cs)
      else if c = CHR ''_'' \<and> is_digit d then parse_digits (acc * 10 + digit_val d) cs
      else None)"

definition parse_nat :: "string \<Rightarrow> nat option" where
  "parse_nat s =
     (case s of
        [] \<Rightarrow> None
      | c # cs \<Rightarrow>
          if is_digit c \<and> length (filter is_digit s) \<le> int_max_str_digits
          then parse_digits (digit_val c) cs
          else None)"

definition py_int :: "string \<Rightarrow> exn + int" where
  "py_int s =
     (case int_strip s of
        [] \<Rightarrow> Inl ValueError
      | c # cs \<Rightarrow>
          if c = CHR ''-'' then
            (case parse_nat cs of None \<Rightarrow> Inl ValueError | Some n \<Rightarrow> Inr (- int n))
          else if c = CHR ''+'' then
            (case parse_nat cs of None \<Rightarrow> Inl ValueError | Some n \<Rightarrow> Inr (int n))
          else
            (case parse_nat (c # cs) of None \<Rightarrow> Inl ValueError | Some n \<Rightarrow> Inr (int n)))"

section \<open>Configuration\<close>

definition MM_LOC_IFACE :: string where
  "MM_LOC_IFACE = ''org.freedesktop.ModemManager1.Modem.Location''"

definition PTY_LINK :: string where
  "PTY_LINK = ''/run/nmea-bridge''"

definition GPS_NMEA :: "32 word" where
  "GPS_NMEA = 0x04"

section \<open>The process state and its surroundings\<close>

text \<open>
  What \<open>log\<close> prints, one constructor for each message of the source with the values
  its format string interpolates.
\<close>

datatype log_msg =
    NoModemYet int int int
  | PtySlave string
  | PtyWriteError exn
  | PollError exn
  | GpsdAdded
  | GpsdAlreadyTracking
  | GpsdWarning
  | ShuttingDown
  | AutoDiscovered int string
  | SetupFailed string int
  | NmeaEnabled int string
  | Forwarding

text \<open>
  The calls whose order and number the retry budgets are about: an enumeration of the
  bus objects, a sleep, a \<open>Setup\<close> call, a run of the helper command.
\<close>

datatype event = Enumerate | Sleep int | SetupCall "32 word" bool | GpsdctlAdd

text \<open>What is at the alias path.\<close>

datatype node = Symlink string | OtherFile

text \<open>
  The bus objects as \<open>GetManagedObjects\<close> returns them: object paths in enumeration
  order, each with its interfaces and their properties. The location a source reports
  maps a capability bit to its payload.
\<close>

type_synonym props = "string \<rightharpoonup> 32 word"
type_synonym interfaces = "string \<rightharpoonup> props"
type_synonym objects = "(string \<times> interfaces) list"
type_synonym location = "32 word \<rightharpoonup> string"

text \<open>
  The mutable state: the globals \<open>master_fd\<close> and \<open>_last_nmea\<close>, the open file
  descriptors, the alias path, and what the process has done so far (the \<open>os.write\<close>
  calls on the handle with their data and whether each succeeded, the log lines, and
  the timeline of sleeps and of calls on the bus and of the helper command).
\<close>

record world =
  master_fd :: "nat option"
  last_nmea :: string
  open_fds :: "nat set"
  alias_path :: "node option"
  slave_owner :: "(nat \<times> nat) option"
  slave_mode :: "nat option"
  writes :: "(bytes \<times> bool) list"
  logged :: "log_msg list"
  timeline :: "event list"
  enum_calls :: nat
  setup_calls :: "(32 word \<times> bool) list"
  gpsdctl_calls :: nat
  gpsd_started :: bool
  poll_armed :: bool
  event_subscribed :: bool
  handlers_installed :: bool

text \<open>
  The surroundings: what each call into the operating system, the bus and the helper
  commands answers. Calls that are repeated are answered by their number.
\<close>

record env =
  openpty_res :: "exn + nat \<times> nat"
  ttyname_res :: "exn + string"
  getgrnam_dialout :: "nat option"
  chown_res :: "exn option"
  chmod_res :: "exn option"
  unlink_res :: "exn option"
  symlink_res :: "exn option"
  link_target_exists :: bool
  system_bus_res :: "exn option"
  write_fails :: "nat \<Rightarrow> bool"
  managed_objects :: "nat \<Rightarrow> exn + objects"
  setup_res :: "nat \<Rightarrow> exn option"
  systemctl_res :: "exn option"
  gpsdctl_res :: "nat \<Rightarrow> exn + int \<times> bool"

text \<open>A call returns a value or raises, and leaves a state.\<close>

type_synonym 'a result = "(exn + 'a) \<times> world"

definition seq :: "'a result \<Rightarrow> ('a \<Rightarrow> world \<Rightarrow> 'b result) \<Rightarrow> 'b result" where
  "seq r f = (case r of (Inl ex, w) \<Rightarrow> (Inl ex, w) | (Inr x, w) \<Rightarrow> f x w)"

definition log :: "log_msg \<Rightarrow> world \<Rightarrow> world" where
  "log msg w = w\<lparr>logged := logged w @ [msg]\<rparr>"

text \<open>\<open>time.sleep\<close> refuses a negative length.\<close>

definition time_sleep :: "int \<Rightarrow> world \<Rightarrow> unit result" where
  "time_sleep secs w =
     (if secs < 0 then (Inl ValueError, w) else (Inr (), w\<lparr>timeline := timeline w @ [Sleep secs]\<rparr>))"

text \<open>
  \<open>os.write(fd, data)\<close>: \<open>TypeError\<close> when \<open>fd\<close> is \<open>None\<close>; \<open>OSError\<close> when the
  descriptor is closed or the device refuses the data.
\<close>

definition os_write :: "env \<Rightarrow> nat option \<Rightarrow> bytes \<Rightarrow> world \<Rightarrow> unit result" where
  "os_write e fd data w =
     (case fd of
        None \<Rightarrow> (Inl TypeError, w)
      | Some n \<Rightarrow>
          (let ok = (n \<in> open_fds w \<and> \<not> write_fails e (length (writes w)))
           in (if ok then Inr () else Inl OSError, w\<lparr>writes := writes w @ [(data, ok)]\<rparr>)))"

definition os_close :: "nat \<Rightarrow> world \<Rightarrow> unit result" where
  "os_close n w =
     (if n \<in> open_fds w then (Inr (), w\<lparr>open_fds := open_fds w - {n}\<rparr>)
      else (Inl OSError, w))"

definition os_unlink_alias :: "env \<Rightarrow> world \<Rightarrow> unit result" where
  "os_unlink_alias e w =
     (case unlink_res e of
        Some ex \<Rightarrow> (Inl ex, w)
      | None \<Rightarrow> if alias_path w = None then (Inl OSError, w) else (Inr (), w\<lparr>alias_path := None\<rparr>))"

definition os_symlink_alias :: "env \<Rightarrow> string \<Rightarrow> world \<Rightarrow> unit result" where
  "os_symlink_alias e target w =
     (case symlink_res e of
        Some ex \<Rightarrow> (Inl ex, w)
      | None \<Rightarrow>
          if alias_path w \<noteq> None then (Inl OSError, w)
          else (Inr (), w\<lparr>alias_path := Some (Symlink target)\<rparr>))"

definition islink_alias :: "world \<Rightarrow> bool" where
  "islink_alias w = (case alias_path w of Some (Symlink t) \<Rightarrow> True | _ \<Rightarrow> False)"

text \<open>\<open>location_iface.Setup(sources, signal_location)\<close>.\<close>

definition iface_Setup :: "env \<Rightarrow> 32 word \<Rightarrow> bool \<Rightarrow> world \<Rightarrow> unit result" where
  "iface_Setup e sources enable w =
     (case setup_res e (length (setup_calls w)) of
        Some ex \<Rightarrow> Inl ex
      | None \<Rightarrow> Inr (),
      w\<lparr>setup_calls := setup_calls w @ [(sources, enable)],
        timeline := timeline w @ [SetupCall sources enable]\<rparr>)"

text \<open>\<open>obj_mgr.GetManagedObjects()\<close>.\<close>

definition get_managed_objects :: "env \<Rightarrow> world \<Rightarrow> objects result" where
  "get_managed_objects e w =
     (managed_objects e (enum_calls w),
      w\<lparr>enum_calls := Suc (enum_calls w), timeline := timeline w @ [Enumerate]\<rparr>)"

section \<open>Stream merge engine\<close>

text \<open>The loop of \<open>write_nmea\<close> over the lines.\<close>

fun write_lines :: "env \<Rightarrow> string list \<Rightarrow> world \<Rightarrow> unit result" where
  "write_lines e [] w = (Inr (), w)"
| "write_lines e (l # ls) w =
     (let line = strip l
      in if startswith line ''$'' then
           (case os_write e (master_fd w) (encode (line @ [CR, LF])) w of
              (Inr u, w') \<Rightarrow> write_lines e ls w'
            | (Inl ex, w') \<Rightarrow>
                if ex = OSError then write_lines e ls (log (PtyWriteError ex) w')
                else (Inl ex, w'))
         else write_lines e ls w)"

definition write_nmea :: "env \<Rightarrow> string \<Rightarrow> world \<Rightarrow> unit result" where
  "write_nmea e sentences w = write_lines e (splitlines (strip sentences)) w"

text \<open>\<open>str(location.get(GPS_NMEA, ""))\<close>.\<close>

definition nmea_of :: "location \<Rightarrow> string" where
  "nmea_of loc = (case loc GPS_NMEA of None \<Rightarrow> [] | Some v \<Rightarrow> v)"

text \<open>
  One tick of the poll feed. \<open>props_iface\<close> is what \<open>Get(MM_LOC_IFACE, "Location")\<close>
  answers on this tick.
\<close>

definition poll_nmea :: "env \<Rightarrow> exn + location \<Rightarrow> world \<Rightarrow> bool result" where
  "poll_nmea e props_iface w =
     (case props_iface of
        Inl ex \<Rightarrow> (Inr True, log (PollError ex) w)
      | Inr loc \<Rightarrow>
          (let nmea = nmea_of loc
           in if nmea \<noteq> [] then
                (case write_nmea e nmea w of
                   (Inr u, w') \<Rightarrow> (Inr True, w'\<lparr>last_nmea := nmea\<rparr>)
                 | (Inl ex, w') \<Rightarrow> (Inr True, log (PollError ex) w'))
              else (Inr True, w)))"

text \<open>The handler of the \<open>PropertiesChanged\<close> signal.\<close>

definition on_properties_changed ::
  "env \<Rightarrow> string \<Rightarrow> (string \<rightharpoonup> location) \<Rightarrow> world \<Rightarrow> unit result" where
  "on_properties_changed e iface changed w =
     (if iface \<noteq> MM_LOC_IFACE then (Inr (), w)
      else
        (let loc = (case changed ''Location'' of None \<Rightarrow> Map.empty | Some l \<Rightarrow> l);
             nmea = nmea_of loc
         in if nmea \<noteq> [] then write_nmea e nmea w else (Inr (), w)))"

section \<open>Source discovery\<close>

text \<open>\<open>str(path).rsplit("/", 1)[-1]\<close>: what follows the last slash, or the whole string.\<close>

definition last_segment :: "string \<Rightarrow> string" where
  "last_segment p = rev (takeWhile (\<lambda>c. c \<noteq> CHR ''/'') (rev p))"

text \<open>
  The inner loop of \<open>find_gps_modem\<close> over \<open>objects.items()\<close>: \<open>None\<close> when it runs to
  its end, otherwise what the \<open>return\<close> yields or what \<open>int\<close> raises.
\<close>

fun scan_objects :: "objects \<Rightarrow> (exn + int \<times> string) option" where
  "scan_objects [] = None"
| "scan_objects ((path, ifaces) # rest) =
     (case ifaces MM_LOC_IFACE of
        None \<Rightarrow> scan_objects rest
      | Some ps \<Rightarrow>
          (let caps = (case ps ''Capabilities'' of None \<Rightarrow> 0 | Some c \<Rightarrow> c)
           in if caps AND GPS_NMEA \<noteq> 0 then
                (case py_int (last_segment path) of
                   Inl ex \<Rightarrow> Some (Inl ex)
                 | Inr index \<Rightarrow> Some (Inr (index, path)))
              else scan_objects rest))"

definition no_modem_message :: "int \<Rightarrow> int \<Rightarrow> string" where
  "no_modem_message retries delay =
     ''No modem with GPS NMEA capability found after '' @ str_int (retries * delay) @ ''s.''
     @ [LF] @ ''Check:  mmcli -L && mmcli -m <index> --location-status''"

text \<open>The loop \<open>for attempt in range(retries)\<close>, from \<open>attempt\<close> on, and the \<open>raise\<close> after it.\<close>

function find_gps_modem_from ::
  "env \<Rightarrow> int \<Rightarrow> int \<Rightarrow> nat \<Rightarrow> world \<Rightarrow> (int \<times> string) result" where
  "find_gps_modem_from e retries delay attempt w =
     (if int attempt < retries then
        (case get_managed_objects e w of
           (Inl ex, w1) \<Rightarrow> (Inl ex, w1)
         | (Inr objs, w1) \<Rightarrow>
             (case scan_objects objs of
                Some r \<Rightarrow> (r, w1)
              | None \<Rightarrow>
                  if int attempt < retries - 1 then
                    (case time_sleep delay
                            (log (NoModemYet delay (int attempt + 1) retries) w1) of
                       (Inl ex, w2) \<Rightarrow> (Inl ex, w2)
                     | (Inr u, w2) \<Rightarrow> find_gps_modem_from e retries delay (Suc attempt) w2)
                  else find_gps_modem_from e retries delay (Suc attempt) w1))
      else (Inl (RuntimeError (no_modem_message retries delay)), w))"
  by pat_completeness auto
termination
  by (relation "measure (\<lambda>(e, retries, delay, attempt, w). nat (retries - int attempt))") auto

definition find_gps_modem :: "env \<Rightarrow> int \<Rightarrow> int \<Rightarrow> world \<Rightarrow> (int \<times> string) result" where
  "find_gps_modem e retries delay w = find_gps_modem_from e retries delay 0 w"

section \<open>Device endpoint\<close>

text \<open>
  \<open>os.path.exists\<close> follows a symbolic link, so on a link it tells whether the target
  is there; the source asks it only together with \<open>os.path.islink\<close>.
\<close>

definition exists_alias :: "env \<Rightarrow> world \<Rightarrow> bool" where
  "exists_alias e w =
     (case alias_path w of
        None \<Rightarrow> False
      | Some OtherFile \<Rightarrow> True
      | Some (Symlink t) \<Rightarrow> link_target_exists e)"

text \<open>The mode \<open>0o660\<close>.\<close>

definition mode_660 :: nat where
  "mode_660 = 6 * 64 + 6 * 8 + 0"

definition setup_pty :: "env \<Rightarrow> world \<Rightarrow> string result" where
  "setup_pty e w0 =
     (case openpty_res e of
        Inl ex \<Rightarrow> (Inl ex, w0)
      | Inr (m, s) \<Rightarrow>
          (let w1 = w0\<lparr>master_fd := Some m, open_fds := open_fds w0 \<union> {m, s}\<rparr>
           in case ttyname_res e of
                Inl ex \<Rightarrow> (Inl ex, w1)
              | Inr slave_name \<Rightarrow>
                  seq (os_close s w1) (\<lambda>u w2.
                    case getgrnam_dialout e of
                      None \<Rightarrow> (Inl KeyError, w2)
                    | Some dialout_gid \<Rightarrow>
                        (case chown_res e of
                           Some ex \<Rightarrow> (Inl ex, w2)
                         | None \<Rightarrow>
                             (let w3 = w2\<lparr>slave_owner := Some (0, dialout_gid)\<rparr>
                              in case chmod_res e of
                                   Some ex \<Rightarrow> (Inl ex, w3)
                                 | None \<Rightarrow>
                                     (let w4 = w3\<lparr>slave_mode := Some mode_660\<rparr>
                                      in seq (if islink_alias w4 \<or> exists_alias e w4
                                              then os_unlink_alias e w4 else (Inr (), w4))
                                           (\<lambda>u w5.
                                              seq (os_symlink_alias e slave_name w5)
                                                (\<lambda>u w6.
                                                   (Inr slave_name,
                                                    log (PtySlave slave_name) w6)))))))))"

section \<open>Capability activation\<close>

text \<open>The loop \<open>for attempt in range(10)\<close> of \<open>main\<close>, from \<open>attempt\<close> on.\<close>

function activate_from :: "env \<Rightarrow> nat \<Rightarrow> world \<Rightarrow> unit result" where
  "activate_from e attempt w =
     (if attempt < 10 then
        (case iface_Setup e GPS_NMEA True w of
           (Inr u, w1) \<Rightarrow> (Inr (), w1)
         | (Inl ex, w1) \<Rightarrow>
             (case ex of
                DBusException name \<Rightarrow>
                  if attempt = 9 then (Inl ex, w1)
                  else
                    (case time_sleep 2 (log (SetupFailed name (int attempt + 1)) w1) of
                       (Inl ex2, w2) \<Rightarrow> (Inl ex2, w2)
                     | (Inr u, w2) \<Rightarrow> activate_from e (Suc attempt) w2)
              | _ \<Rightarrow> (Inl ex, w1)))
      else (Inr (), w))"
  by pat_completeness auto
termination
  by (relation "measure (\<lambda>(e, attempt, w). 10 - attempt)") auto

definition activate :: "env \<Rightarrow> world \<Rightarrow> unit result" where
  "activate e w = activate_from e 0 w"

section \<open>Consumer daemon control\<close>

text \<open>
  The loop \<open>for i in range(10)\<close> of \<open>notify_gpsd\<close>, from \<open>i\<close> on, and the warning after
  it. The helper answers with its return code and whether its output holds the marker.
\<close>

function gpsdctl_from :: "env \<Rightarrow> nat \<Rightarrow> world \<Rightarrow> unit result" where
  "gpsdctl_from e i w =
     (if i < 10 then
        (case time_sleep 1 w of
           (Inl ex, w1) \<Rightarrow> (Inl ex, w1)
         | (Inr u, w1) \<Rightarrow>
             (let w2 = w1\<lparr>gpsdctl_calls := Suc (gpsdctl_calls w1),
                         timeline := timeline w1 @ [GpsdctlAdd]\<rparr>
              in case gpsdctl_res e (gpsdctl_calls w1) of
                   Inl ex \<Rightarrow> (Inl ex, w2)
                 | Inr (returncode, marker) \<Rightarrow>
                     if returncode = 0 then (Inr (), log GpsdAdded w2)
                     else if marker then (Inr (), log GpsdAlreadyTracking w2)
                     else gpsdctl_from e (Suc i) w2))
      else (Inr (), log GpsdWarning w))"
  by pat_completeness auto
termination
  by (relation "measure (\<lambda>(e, i, w). 10 - i)") auto

definition notify_gpsd :: "env \<Rightarrow> world \<Rightarrow> unit result" where
  "notify_gpsd e w =
     (case systemctl_res e of
        Some ex \<Rightarrow> (Inl ex, w)
      | None \<Rightarrow> gpsdctl_from e 0 (w\<lparr>gpsd_started := True\<rparr>))"

section \<open>Lifecycle\<close>

text \<open>
  \<open>cleanup\<close> ends in \<open>sys.exit(0)\<close>: it yields the exit status, or the exception that
  escaped before the exit was reached. What \<open>Setup\<close> raises is passed over.
\<close>

definition cleanup_unlink :: "env \<Rightarrow> world \<Rightarrow> unit result" where
  "cleanup_unlink e w = (if islink_alias w then os_unlink_alias e w else (Inr (), w))"

definition cleanup_close :: "world \<Rightarrow> unit result" where
  "cleanup_close w = (case master_fd w of None \<Rightarrow> (Inr (), w) | Some m \<Rightarrow> os_close m w)"

definition cleanup :: "env \<Rightarrow> world \<Rightarrow> int result" where
  "cleanup e w0 =
     (let w1 = log ShuttingDown w0;
          w2 = snd (iface_Setup e 0 False w1)
      in seq (cleanup_unlink e w2) (\<lambda>u w3.
           seq (cleanup_close w3) (\<lambda>u w4. (Inr 0, w4))))"

text \<open>
  A second termination signal during teardown: the handler is entered again at a
  statement boundary of the running \<open>cleanup\<close>. The inner call never returns (it exits
  or raises), so what it yields is what the process does.
\<close>

datatype boundary = BeforeUnlink | BeforeClose | BeforeExit

definition cleanup_reentered :: "env \<Rightarrow> boundary \<Rightarrow> world \<Rightarrow> int result" where
  "cleanup_reentered e b w0 =
     (let w1 = log ShuttingDown w0;
          w2 = snd (iface_Setup e 0 False w1)
      in case b of
           BeforeUnlink \<Rightarrow> cleanup e w2
         | BeforeClose \<Rightarrow> seq (cleanup_unlink e w2) (\<lambda>u w3. cleanup e w3)
         | BeforeExit \<Rightarrow>
             seq (cleanup_unlink e w2) (\<lambda>u w3.
               seq (cleanup_close w3) (\<lambda>u w4. cleanup e w4)))"

definition modem_path_of :: "int \<Rightarrow> string" where
  "modem_path_of modem_index = ''/org/freedesktop/ModemManager1/Modem/'' @ str_int modem_index"

text \<open>
  \<open>main\<close> up to the start of the reactor: it returns when \<open>GLib.MainLoop().run()\<close> is
  reached, or raises what aborts the process.
\<close>

definition main :: "env \<Rightarrow> string list \<Rightarrow> world \<Rightarrow> unit result" where
  "main e argv w0 =
     seq (setup_pty e w0) (\<lambda>slave_name w1.
       case system_bus_res e of
         Some ex \<Rightarrow> (Inl ex, w1)
       | None \<Rightarrow>
           seq (if length argv > 1 then
                  (case py_int (argv ! 1) of
                     Inl ex \<Rightarrow> (Inl ex, w1)
                   | Inr modem_index \<Rightarrow> (Inr (modem_index, modem_path_of modem_index), w1))
                else
                  seq (find_gps_modem e 15 2 w1) (\<lambda>(modem_index, modem_path) w.
                    (Inr (modem_index, modem_path),
                     log (AutoDiscovered modem_index modem_path) w)))
             (\<lambda>(modem_index, modem_path) w2.
                seq (activate e w2) (\<lambda>u w3.
                  (let w4 = log (NmeaEnabled modem_index modem_path) w3;
                       w5 = w4\<lparr>poll_armed := True\<rparr>;
                       w6 = w5\<lparr>event_subscribed := True\<rparr>;
                       w7 = w6\<lparr>handlers_installed := True\<rparr>
                   in seq (notify_gpsd e w7) (\<lambda>u w8. (Inr (), log Forwarding w8))))))"

section \<open>What the forwarding primitive is to write\<close>

text \<open>
  Following the words of the specification: the blob is split into lines, each line is
  trimmed, the lines that begin with the sentence-start marker are kept, and each of
  them is written with the canonical terminator appended.
\<close>

definition sentence_lines :: "string \<Rightarrow> string list" where
  "sentence_lines s = filter (\<lambda>l. startswith l ''$'') (map strip (splitlines s))"

definition forward_spec :: "string \<Rightarrow> bytes list" where
  "forward_spec s = map (\<lambda>l. encode (l @ [CR, LF])) (sentence_lines s)"

section \<open>What discovery is to find\<close>

text \<open>
  Following the words of the specification: an object that exposes the location
  interface and whose capability bitmask includes the NMEA bit, which is bit 2.
\<close>

definition capable :: "string \<times> interfaces \<Rightarrow> bool" where
  "capable obj =
     (case snd obj MM_LOC_IFACE of
        None \<Rightarrow> False
      | Some ps \<Rightarrow> (case ps ''Capabilities'' of None \<Rightarrow> False | Some c \<Rightarrow> bit c 2))"

text \<open>The lengths of the sleeps in a timeline, in order.\<close>

fun sleeps :: "event list \<Rightarrow> int list" where
  "sleeps [] = []"
| "sleeps (Sleep d # es) = d # sleeps es"
| "sleeps (ev # es) = sleeps es"

text \<open>
  What the loop of \<open>find_gps_modem\<close> adds to the timeline and to the log when every
  attempt from \<open>attempt\<close> on finds no capable object.
\<close>

definition barren_events :: "int \<Rightarrow> int \<Rightarrow> nat \<Rightarrow> event list" where
  "barren_events retries delay attempt =
     concat (map (\<lambda>i. if int i < retries - 1 then [Enumerate, Sleep delay] else [Enumerate])
       [attempt..<nat retries])"

definition barren_logs :: "int \<Rightarrow> int \<Rightarrow> nat \<Rightarrow> log_msg list" where
  "barren_logs retries delay attempt =
     concat (map (\<lambda>i. if int i < retries - 1 then [NoModemYet delay (int i + 1) retries] else [])
       [attempt..<nat retries])"

section \<open>What activation leaves behind\<close>

text \<open>
  The state after \<open>k\<close> failed attempts of the activation loop, each logged with the
  name of its bus error and followed by a sleep of two seconds, and one more \<open>Setup\<close>
  call.
\<close>

definition after_setup_attempts :: "(nat \<Rightarrow> string) \<Rightarrow> nat \<Rightarrow> world \<Rightarrow> world" where
  "after_setup_attempts name k w =
     w\<lparr>setup_calls := setup_calls w @ replicate (Suc k) (GPS_NMEA, True),
       timeline := timeline w @
         concat (replicate k [SetupCall GPS_NMEA True, Sleep 2]) @ [SetupCall GPS_NMEA True],
       logged := logged w @ map (\<lambda>i. SetupFailed (name i) (int i + 1)) [0..<k]\<rparr>"

section \<open>The endpoint\<close>

text \<open>What release is about: the handle, the open descriptors and the alias path.\<close>

definition endpoint :: "world \<Rightarrow> nat option \<times> nat set \<times> node option" where
  "endpoint w = (master_fd w, open_fds w, alias_path w)"

section \<open>Sample surroundings and states\<close>

text \<open>Surroundings in which every call succeeds and the bus enumerates no object.\<close>

definition env_quiet :: env where
  "env_quiet =
     \<lparr>openpty_res = Inr (3, 4), ttyname_res = Inr ''/dev/pts/5'',
      getgrnam_dialout = Some 20, chown_res = None, chmod_res = None, unlink_res = None,
      symlink_res = None, link_target_exists = False, system_bus_res = None,
      write_fails = (\<lambda>n. False), managed_objects = (\<lambda>n. Inr []),
      setup_res = (\<lambda>n. None), systemctl_res = None, gpsdctl_res = (\<lambda>n. Inr (0, False))\<rparr>"

text \<open>
  The state at process start, and the state in which \<open>main\<close> enters the reactor when it
  is given the source index 0 in quiet surroundings.
\<close>

definition world_init :: world where
  "world_init =
     \<lparr>master_fd = None, last_nmea = [], open_fds = {0, 1, 2}, alias_path = None,
      slave_owner = None, slave_mode = None, writes = [], logged = [], timeline = [],
      enum_calls = 0, setup_calls = [], gpsdctl_calls = 0, gpsd_started = False,
      poll_armed = False, event_subscribed = False, handlers_installed = False\<rparr>"

definition world_running :: world where
  "world_running =
     world_init\<lparr>master_fd := Some 3, open_fds := {0, 1, 2, 3},
       alias_path := Some (Symlink ''/dev/pts/5''), slave_owner := Some (0, 20),
       slave_mode := Some mode_660,
       logged := [PtySlave ''/dev/pts/5'',
                  NmeaEnabled 0 ''/org/freedesktop/ModemManager1/Modem/0'',
                  GpsdAdded, Forwarding],
       timeline := [SetupCall GPS_NMEA True, Sleep 1, GpsdctlAdd],
       setup_calls := [(GPS_NMEA, True)], gpsdctl_calls := 1, gpsd_started := True,
       poll_armed := True, event_subscribed := True, handlers_installed := True\<rparr>"

text \<open>A payload of two sentences around a line that is none.\<close>

definition sample_payload :: string where
  "sample_payload =
     ''$GPGGA,1'' @ [LF] @ ''noise'' @ [LF] @ ''  $GPRMC,2 '' @ [CR, LF]"

text \<open>The surroundings of \<open>env_quiet\<close>, except that the first write on the handle fails.\<close>

definition env_first_write_fails :: env where
  "env_first_write_fails = env_quiet\<lparr>write_fails := (\<lambda>n. n = 0)\<rparr>"

text \<open>A location that holds the sample payload, and the change notice that carries it.\<close>

definition sample_location :: location where
  "sample_location = [GPS_NMEA \<mapsto> sample_payload]"

definition sample_changed :: "string \<rightharpoonup> location" where
  "sample_changed = [''Location'' \<mapsto> sample_location]"



text \<open>
  Surroundings in which the first two \<open>Setup\<close> calls fail on the bus, and surroundings
  in which every \<open>Setup\<close> call does.
\<close>

definition env_setup_fails_twice :: env where
  "env_setup_fails_twice =
     env_quiet\<lparr>setup_res := (\<lambda>n. if n < 2
        then Some (DBusException ''org.freedesktop.DBus.Error.UnknownMethod'') else None)\<rparr>"

definition env_setup_fails :: env where
  "env_setup_fails =
     env_quiet\<lparr>setup_res := (\<lambda>n. Some (DBusException ''org.freedesktop.DBus.Error.NoReply''))\<rparr>"

text \<open>
  The command line without a source index, surroundings without the group \<open>dialout\<close>,
  and surroundings in which the alias cannot be created.
\<close>

definition argv_auto :: "string list" where
  "argv_auto = [''mm-nmea-bridge.py'']"

definition env_no_dialout :: env where
  "env_no_dialout = env_quiet\<lparr>getgrnam_dialout := None\<rparr>"

definition env_symlink_fails :: env where
  "env_symlink_fails = env_quiet\<lparr>symlink_res := Some OSError\<rparr>"

section \<open>Lines and whitespace\<close>

lemma linebreak_is_space: "is_linebreak c \<Longrightarrow> is_space c"
  by (auto simp: is_linebreak_def is_space_def Let_def)

lemma CR_linebreak: "is_linebreak CR" and LF_linebreak: "is_linebreak LF"
  by (simp_all add: is_linebreak_def CR_def LF_def)

lemma strip_Nil: "strip [] = []"
  by (simp add: strip_def)

lemma strip_Cons_space: "is_space c \<Longrightarrow> strip (c # l) = strip l"
  by (simp add: strip_def)

lemma strip_snoc_space: "is_space c \<Longrightarrow> strip (l @ [c]) = strip l"
proof (cases "\<forall>x\<in>set l. is_space x")
  case True
  assume c: "is_space c"
  from True have a: "dropWhile is_space l = []" by simp
  from True c have b: "dropWhile is_space (l @ [c]) = []" by simp
  show ?thesis by (simp add: strip_def a b)
next
  case False
  assume c: "is_space c"
  from False have "dropWhile is_space (l @ [c]) = dropWhile is_space l @ [c]"
    by (auto simp: dropWhile_append1)
  with c show ?thesis by (simp add: strip_def)
qed

lemma not_dollar_Nil: "\<not> startswith [] ''$''"
  by (simp add: startswith_def)

lemma strip_space: "is_space c \<Longrightarrow> strip [c] = []"
  by (simp add: strip_def)

lemma dollar_from_snoc:
  "is_space c \<Longrightarrow>
   filter (\<lambda>l. startswith l ''$'') (map strip (splitlines_from acc (s @ [c]))) =
   filter (\<lambda>l. startswith l ''$'') (map strip (splitlines_from acc s))"
proof (induction acc s rule: splitlines_from.induct)
  case (1 acc)
  then show ?case
    using strip_snoc_space [of c "rev acc"] by (simp add: strip_Nil strip_space not_dollar_Nil)
next
  case (2 acc c0)
  then show ?case
    using strip_snoc_space [of c "rev acc @ [c0]"] strip_snoc_space [of c "[]"]
    by (simp add: strip_Nil strip_space not_dollar_Nil CR_linebreak)
next
  case (3 acc c0 d cs)
  then show ?case by simp
qed


lemma splitlines_from_acc:
  "splitlines_from acc s =
     (case splitlines_from [] s of
        [] \<Rightarrow> (if acc = [] then [] else [rev acc])
      | l # ls \<Rightarrow> (rev acc @ l) # ls)"
proof (induction s arbitrary: acc rule: induct_list012)
  case 1
  then show ?case by simp
next
  case (2 c)
  then show ?case by simp
next
  case (3 c d cs)
  show ?case
  proof (cases "(c = CR \<and> d = LF) \<or> is_linebreak c")
    case True
    then show ?thesis by auto
  next
    case False
    then have "splitlines_from acc (c # d # cs) = splitlines_from (c # acc) (d # cs)"
      and "splitlines_from [] (c # d # cs) = splitlines_from [c] (d # cs)"
      by auto
    then show ?thesis
      using "3.IH"(2) [of "c # acc"] "3.IH"(2) [of "[c]"]
      by (simp split: list.splits)
  qed
qed

lemma splitlines_Nil: "splitlines [] = []"
  by (simp add: splitlines_def)

lemma splitlines_CRLF: "splitlines (CR # LF # s) = [] # splitlines s"
  by (simp add: splitlines_def)

lemma splitlines_break:
  "is_linebreak c \<Longrightarrow> \<not> (c = CR \<and> (\<exists>r. s = LF # r)) \<Longrightarrow> splitlines (c # s) = [] # splitlines s"
  by (cases s) (auto simp: splitlines_def)

lemma splitlines_char:
  "\<not> is_linebreak c \<Longrightarrow>
   splitlines (c # s) = (case splitlines s of [] \<Rightarrow> [[c]] | l # ls \<Rightarrow> (c # l) # ls)"
proof (cases s)
  case Nil
  assume "\<not> is_linebreak c"
  with Nil show ?thesis by (simp add: splitlines_def)
next
  case (Cons d cs)
  assume nb: "\<not> is_linebreak c"
  then have "c \<noteq> CR" using CR_linebreak by auto
  with nb Cons show ?thesis
    using splitlines_from_acc [of "[c]" "d # cs"] by (simp add: splitlines_def split: list.splits)
qed

lemma sentence_lines_Cons_space:
  assumes "is_space c"
  shows "sentence_lines (c # s) = sentence_lines s"
proof (cases "is_linebreak c")
  case False
  with assms show ?thesis
    by (simp add: sentence_lines_def splitlines_char strip_Nil strip_space strip_Cons_space
        not_dollar_Nil split: list.splits)
next
  case True
  show ?thesis
  proof (cases "c = CR \<and> (\<exists>r. s = LF # r)")
    case False
    with True show ?thesis
      by (simp add: sentence_lines_def splitlines_break strip_Nil not_dollar_Nil)
  next
    case True
    then obtain r where r: "c = CR" "s = LF # r" by blast
    have "splitlines (LF # r) = [] # splitlines r"
      by (rule splitlines_break) (simp_all add: LF_linebreak, simp add: LF_def CR_def)
    with r show ?thesis
      by (simp add: sentence_lines_def splitlines_CRLF strip_Nil not_dollar_Nil)
  qed
qed

lemma sentence_lines_dropWhile: "sentence_lines (dropWhile is_space s) = sentence_lines s"
  by (induction s) (simp_all add: sentence_lines_Cons_space)

lemma sentence_lines_snoc_space:
  "is_space c \<Longrightarrow> sentence_lines (s @ [c]) = sentence_lines s"
  by (simp add: sentence_lines_def splitlines_def dollar_from_snoc)

lemma sentence_lines_append_spaces:
  "\<forall>x\<in>set ws. is_space x \<Longrightarrow> sentence_lines (s @ ws) = sentence_lines s"
proof (induction ws rule: rev_induct)
  case Nil
  then show ?case by simp
next
  case (snoc c ws)
  then show ?case
    using sentence_lines_snoc_space [of c "s @ ws"] by simp
qed

lemma sentence_lines_strip: "sentence_lines (strip s) = sentence_lines s"
proof -
  let ?t = "dropWhile is_space s"
  let ?ws = "rev (takeWhile is_space (rev ?t))"
  have "?t = strip s @ ?ws"
    by (simp add: strip_def flip: rev_append)
  moreover have "\<forall>x\<in>set ?ws. is_space x"
    by (auto dest: set_takeWhileD)
  ultimately have "sentence_lines ?t = sentence_lines (strip s)"
    using sentence_lines_append_spaces [of ?ws "strip s"] by simp
  then show ?thesis by (simp add: sentence_lines_dropWhile)
qed


lemma write_lines_trace:
  "master_fd w = Some fd \<Longrightarrow>
   \<exists>new. write_lines e ls w =
           (Inr (), w\<lparr>writes := writes w @ new,
                      logged := logged w @
                        replicate (length (filter (\<lambda>p. \<not> snd p) new)) (PtyWriteError OSError)\<rparr>) \<and>
     map fst new =
       map (\<lambda>l. encode (l @ [CR, LF])) (filter (\<lambda>l. startswith l ''$'') (map strip ls)) \<and>
     (\<forall>i<length new.
        snd (new ! i) = (fd \<in> open_fds w \<and> \<not> write_fails e (length (writes w) + i)))"
proof (induction ls arbitrary: w)
  case Nil
  then show ?case by simp
next
  case (Cons l ls)
  show ?case
  proof (cases "startswith (strip l) ''$''")
    case False
    with Cons.IH [OF Cons.prems] show ?thesis by simp
  next
    case True
    define data where "data = encode (strip l @ [CR, LF])"
    define ok where "ok = (fd \<in> open_fds w \<and> \<not> write_fails e (length (writes w)))"
    define w1 where "w1 = w\<lparr>writes := writes w @ [(data, ok)]\<rparr>"
    define w2 where "w2 = (if ok then w1 else log (PtyWriteError OSError) w1)"
    have step: "write_lines e (l # ls) w = write_lines e ls w2"
      using True Cons.prems
      by (simp add: os_write_def Let_def data_def ok_def w1_def w2_def)
    have fd2: "master_fd w2 = Some fd"
      using Cons.prems by (simp add: w2_def w1_def log_def)
    from Cons.IH [OF fd2] obtain new where
      run: "write_lines e ls w2 =
           (Inr (), w2\<lparr>writes := writes w2 @ new,
                      logged := logged w2 @
                        replicate (length (filter (\<lambda>p. \<not> snd p) new)) (PtyWriteError OSError)\<rparr>)"
      and datas: "map fst new =
       map (\<lambda>l. encode (l @ [CR, LF])) (filter (\<lambda>l. startswith l ''$'') (map strip ls))"
      and flags: "\<forall>i<length new.
        snd (new ! i) = (fd \<in> open_fds w2 \<and> \<not> write_fails e (length (writes w2) + i))"
      by blast
    let ?new = "(data, ok) # new"
    have a: "write_lines e (l # ls) w =
           (Inr (), w\<lparr>writes := writes w @ ?new,
                      logged := logged w @
                        replicate (length (filter (\<lambda>p. \<not> snd p) ?new)) (PtyWriteError OSError)\<rparr>)"
      unfolding step run
      by (simp add: w2_def w1_def log_def replicate_app_Cons_same)
    have b: "map fst ?new =
       map (\<lambda>l. encode (l @ [CR, LF])) (filter (\<lambda>l. startswith l ''$'') (map strip (l # ls)))"
      using True datas by (simp add: data_def)
    have c: "\<forall>i<length ?new.
        snd (?new ! i) = (fd \<in> open_fds w \<and> \<not> write_fails e (length (writes w) + i))"
    proof (intro allI impI)
      fix i assume "i < length ?new"
      then show "snd (?new ! i) = (fd \<in> open_fds w \<and> \<not> write_fails e (length (writes w) + i))"
        using flags by (cases i) (simp_all add: ok_def w2_def w1_def log_def)
    qed
    from a b c show ?thesis by blast
  qed
qed


lemma write_nmea_trace:
  assumes "master_fd w = Some fd"
  shows "\<exists>new. write_nmea e s w =
           (Inr (), w\<lparr>writes := writes w @ new,
                      logged := logged w @
                        replicate (length (filter (\<lambda>p. \<not> snd p) new)) (PtyWriteError OSError)\<rparr>) \<and>
     map fst new = forward_spec s \<and>
     (\<forall>i<length new.
        snd (new ! i) = (fd \<in> open_fds w \<and> \<not> write_fails e (length (writes w) + i)))"
proof -
  have "filter (\<lambda>l. startswith l ''$'') (map strip (splitlines (strip s))) = sentence_lines s"
    using sentence_lines_strip [of s] by (simp add: sentence_lines_def)
  then show ?thesis
    using write_lines_trace [OF assms, of e "splitlines (strip s)"]
    by (simp add: write_nmea_def forward_spec_def)
qed


section \<open>The forwarding primitive\<close>

text \<open>
  C1. With the controller-side handle created, \<open>write_nmea\<close> returns normally on every
  input string, and the data of the \<open>os.write\<close> calls it adds are exactly the lines of
  the string (split, then trimmed) that begin with the marker, each with CR LF appended
  and encoded, in their order in the string; it writes nothing for the other lines, and
  apart from its log lines it changes nothing else.
\<close>

theorem write_nmea_writes_sentence_lines:
  assumes "master_fd w = Some fd"
  shows "\<exists>new. write_nmea e s w =
           (Inr (), w\<lparr>writes := writes w @ new,
                      logged := logged w @
                        replicate (length (filter (\<lambda>p. \<not> snd p) new)) (PtyWriteError OSError)\<rparr>) \<and>
           map fst new = forward_spec s"
  using write_nmea_trace [OF assms, of e s] by blast

theorem write_nmea_writes_sentence_lines_witness:
  "master_fd world_running = Some 3 \<and>
   (\<exists>new. write_nmea env_quiet sample_payload world_running =
           (Inr (), world_running\<lparr>writes := writes world_running @ new,
                      logged := logged world_running @
                        replicate (length (filter (\<lambda>p. \<not> snd p) new)) (PtyWriteError OSError)\<rparr>) \<and>
           map fst new = forward_spec sample_payload)"
proof -
  have h: "master_fd world_running = Some 3"
    by (simp add: world_running_def world_init_def)
  show ?thesis
    using h write_nmea_writes_sentence_lines [OF h, of env_quiet sample_payload] by simp
qed

text \<open>The sample payload: two sentences are written, the line between them is not.\<close>

lemma forward_spec_sample:
  "forward_spec sample_payload =
     [encode (''$GPGGA,1'' @ [CR, LF]), encode (''$GPRMC,2'' @ [CR, LF])]"
  by (simp add: forward_spec_def sentence_lines_def sample_payload_def splitlines_def
      CR_def LF_def is_linebreak_def strip_def is_space_def startswith_def)

text \<open>
  C9. With the controller-side handle created, whatever writes fail (the device refusing
  data, or the handle closed), \<open>write_nmea\<close> returns normally: no exception passes the
  call. It still makes one write call for every sentence line of the payload, so a
  failed write does not end the loop; the call with number \<open>i\<close> fails exactly when the
  handle is closed or the device refuses it, and every failure is logged.
\<close>

theorem write_nmea_contains_write_failures:
  assumes "master_fd w = Some fd"
  shows "\<exists>new. write_nmea e s w =
           (Inr (), w\<lparr>writes := writes w @ new,
                      logged := logged w @
                        replicate (length (filter (\<lambda>p. \<not> snd p) new)) (PtyWriteError OSError)\<rparr>) \<and>
           length new = length (sentence_lines s) \<and>
           (\<forall>i<length new.
              snd (new ! i) = (fd \<in> open_fds w \<and> \<not> write_fails e (length (writes w) + i)))"
proof -
  from write_nmea_trace [OF assms, of e s] obtain new where
    a: "write_nmea e s w =
           (Inr (), w\<lparr>writes := writes w @ new,
                      logged := logged w @
                        replicate (length (filter (\<lambda>p. \<not> snd p) new)) (PtyWriteError OSError)\<rparr>)"
    and b: "map fst new = forward_spec s"
    and c: "\<forall>i<length new.
              snd (new ! i) = (fd \<in> open_fds w \<and> \<not> write_fails e (length (writes w) + i))"
    by blast
  from b have "length new = length (sentence_lines s)"
    using length_map [of fst new] by (simp add: forward_spec_def)
  with a c show ?thesis by blast
qed

theorem write_nmea_contains_write_failures_witness:
  "master_fd world_running = Some 3 \<and>
   (\<exists>new. write_nmea env_first_write_fails sample_payload world_running =
           (Inr (), world_running\<lparr>writes := writes world_running @ new,
                      logged := logged world_running @
                        replicate (length (filter (\<lambda>p. \<not> snd p) new)) (PtyWriteError OSError)\<rparr>) \<and>
           length new = length (sentence_lines sample_payload) \<and>
           (\<forall>i<length new.
              snd (new ! i) =
                (3 \<in> open_fds world_running \<and>
                 \<not> write_fails env_first_write_fails (length (writes world_running) + i))))"
proof -
  have h: "master_fd world_running = Some 3"
    by (simp add: world_running_def world_init_def)
  show ?thesis
    using h write_nmea_contains_write_failures [OF h, of env_first_write_fails sample_payload]
    by simp
qed

text \<open>
  The first write fails: it is logged and the second sentence is still written. On a
  closed handle both writes fail and both are logged.
\<close>

lemma write_nmea_first_write_fails:
  "write_nmea env_first_write_fails sample_payload world_running =
     (Inr (), world_running
        \<lparr>writes := [(encode (''$GPGGA,1'' @ [CR, LF]), False),
                    (encode (''$GPRMC,2'' @ [CR, LF]), True)],
         logged := logged world_running @ [PtyWriteError OSError]\<rparr>)"
  by (simp add: write_nmea_def sample_payload_def splitlines_def CR_def LF_def
      is_linebreak_def strip_def is_space_def startswith_def os_write_def log_def
      env_first_write_fails_def env_quiet_def world_running_def world_init_def)

lemma write_nmea_closed_handle:
  "write_nmea env_quiet sample_payload (world_running\<lparr>open_fds := {0, 1, 2}\<rparr>) =
     (Inr (), world_running
        \<lparr>open_fds := {0, 1, 2},
         writes := [(encode (''$GPGGA,1'' @ [CR, LF]), False),
                    (encode (''$GPRMC,2'' @ [CR, LF]), False)],
         logged := logged world_running @ [PtyWriteError OSError, PtyWriteError OSError]\<rparr>)"
  by (simp add: write_nmea_def sample_payload_def splitlines_def CR_def LF_def
      is_linebreak_def strip_def is_space_def startswith_def os_write_def log_def
      env_quiet_def world_running_def world_init_def)

section \<open>The poll feed and the event feed\<close>

lemma write_lines_last_nmea: "last_nmea (snd (write_lines e ls w)) = last_nmea w"
  by (induction ls arbitrary: w)
     (auto simp: Let_def os_write_def log_def split: option.splits prod.splits sum.splits)

lemma write_nmea_last_nmea: "last_nmea (snd (write_nmea e s w)) = last_nmea w"
  by (simp add: write_nmea_def write_lines_last_nmea)

text \<open>
  C8. One poll tick, with the controller-side handle created. The tick always returns
  \<open>True\<close>. When reading the snapshot raises, the exception is logged and nothing else
  happens. When the payload is empty the state is left as it is: nothing is written,
  whatever the last-forwarded snapshot holds. When the payload is not empty it is
  forwarded (the sentence lines are written) and recorded as the last-forwarded
  snapshot.
\<close>

theorem poll_nmea_tick:
  assumes "master_fd w = Some fd"
  shows "fst (poll_nmea e props_iface w) = Inr True \<and>
     (case props_iface of
        Inl ex \<Rightarrow> snd (poll_nmea e props_iface w) = log (PollError ex) w
      | Inr loc \<Rightarrow>
          if nmea_of loc = [] then snd (poll_nmea e props_iface w) = w
          else \<exists>new. snd (poll_nmea e props_iface w) =
                  w\<lparr>last_nmea := nmea_of loc, writes := writes w @ new,
                    logged := logged w @
                      replicate (length (filter (\<lambda>p. \<not> snd p) new)) (PtyWriteError OSError)\<rparr> \<and>
                map fst new = forward_spec (nmea_of loc))"
proof (cases props_iface)
  case (Inl ex)
  then show ?thesis by (simp add: poll_nmea_def)
next
  case (Inr loc)
  show ?thesis
  proof (cases "nmea_of loc = []")
    case True
    with Inr show ?thesis by (simp add: poll_nmea_def)
  next
    case False
    from write_nmea_trace [OF assms, of e "nmea_of loc"] obtain new where
      a: "write_nmea e (nmea_of loc) w =
           (Inr (), w\<lparr>writes := writes w @ new,
                      logged := logged w @
                        replicate (length (filter (\<lambda>p. \<not> snd p) new)) (PtyWriteError OSError)\<rparr>)"
      and b: "map fst new = forward_spec (nmea_of loc)"
      by blast
    from Inr False a have "fst (poll_nmea e props_iface w) = Inr True"
      and "snd (poll_nmea e props_iface w) =
                  w\<lparr>last_nmea := nmea_of loc, writes := writes w @ new,
                    logged := logged w @
                      replicate (length (filter (\<lambda>p. \<not> snd p) new)) (PtyWriteError OSError)\<rparr>"
      by (simp_all add: poll_nmea_def)
    with Inr False b show ?thesis by auto
  qed
qed

text \<open>
  The witness: a tick that finds the sample payload, a tick that finds no payload while
  a stale snapshot is held, and a tick whose read fails.
\<close>

theorem poll_nmea_tick_witness:
  "master_fd world_running = Some 3 \<and>
   fst (poll_nmea env_quiet (Inr sample_location) world_running) = Inr True \<and>
   (\<exists>new. snd (poll_nmea env_quiet (Inr sample_location) world_running) =
           world_running\<lparr>last_nmea := sample_payload, writes := writes world_running @ new,
             logged := logged world_running @
               replicate (length (filter (\<lambda>p. \<not> snd p) new)) (PtyWriteError OSError)\<rparr> \<and>
         map fst new = forward_spec sample_payload) \<and>
   master_fd (world_running\<lparr>last_nmea := sample_payload\<rparr>) = Some 3 \<and>
   poll_nmea env_quiet (Inr Map.empty) (world_running\<lparr>last_nmea := sample_payload\<rparr>) =
     (Inr True, world_running\<lparr>last_nmea := sample_payload\<rparr>) \<and>
   poll_nmea env_quiet (Inl (DBusException ''org.freedesktop.DBus.Error.NoReply'')) world_running =
     (Inr True,
      log (PollError (DBusException ''org.freedesktop.DBus.Error.NoReply'')) world_running)"
proof -
  have h: "master_fd world_running = Some 3"
    by (simp add: world_running_def world_init_def)
  have h': "master_fd (world_running\<lparr>last_nmea := sample_payload\<rparr>) = Some 3"
    by (simp add: world_running_def world_init_def)
  have n: "nmea_of sample_location = sample_payload" "sample_payload \<noteq> []"
    "nmea_of Map.empty = []"
    by (simp_all add: nmea_of_def sample_location_def sample_payload_def)
  show ?thesis
    using h h' poll_nmea_tick [OF h, of env_quiet "Inr sample_location"]
      poll_nmea_tick [OF h', of env_quiet "Inr Map.empty"]
      poll_nmea_tick [OF h, of env_quiet
        "Inl (DBusException ''org.freedesktop.DBus.Error.NoReply'')"]
    by (simp add: n prod_eq_iff)
qed

text \<open>
  The poll feed never empties the snapshot nor sets it to anything but the payload it
  has just forwarded.
\<close>

lemma poll_nmea_snapshot_kept_or_new:
  "last_nmea (snd (poll_nmea e props_iface w)) = last_nmea w \<or>
   (\<exists>loc. props_iface = Inr loc \<and> nmea_of loc \<noteq> [] \<and>
      last_nmea (snd (poll_nmea e props_iface w)) = nmea_of loc)"
proof (cases props_iface)
  case (Inl ex)
  then show ?thesis by (simp add: poll_nmea_def log_def)
next
  case (Inr loc)
  obtain r w' where run: "write_nmea e (nmea_of loc) w = (r, w')"
    by (cases "write_nmea e (nmea_of loc) w")
  then have "last_nmea w' = last_nmea w"
    using write_nmea_last_nmea [of e "nmea_of loc" w] by simp
  with Inr run show ?thesis
    by (cases r) (auto simp: poll_nmea_def log_def Let_def)
qed

text \<open>The event feed leaves the snapshot as it finds it, whatever it forwards.\<close>

lemma on_properties_changed_last_nmea:
  "last_nmea (snd (on_properties_changed e iface changed w)) = last_nmea w"
  by (simp add: on_properties_changed_def Let_def write_nmea_last_nmea)

text \<open>
  C2. The claim asks that a forward by the event feed updates the last-forwarded
  snapshot as a forward by the poll feed does. On a change notice that carries the
  sample payload, with an empty snapshot, \<open>on_properties_changed\<close> writes both sentences
  and the snapshot is still empty afterwards; the same payload found by a poll tick is
  recorded.
\<close>

theorem on_properties_changed_leaves_snapshot:
  "on_properties_changed env_quiet MM_LOC_IFACE sample_changed world_running =
     (Inr (), world_running
        \<lparr>writes := [(encode (''$GPGGA,1'' @ [CR, LF]), True),
                    (encode (''$GPRMC,2'' @ [CR, LF]), True)]\<rparr>) \<and>
   last_nmea (snd (on_properties_changed env_quiet MM_LOC_IFACE sample_changed world_running)) = [] \<and>
   last_nmea (snd (poll_nmea env_quiet (Inr sample_location) world_running)) = sample_payload"
proof -
  have a: "on_properties_changed env_quiet MM_LOC_IFACE sample_changed world_running =
     (Inr (), world_running
        \<lparr>writes := [(encode (''$GPGGA,1'' @ [CR, LF]), True),
                    (encode (''$GPRMC,2'' @ [CR, LF]), True)]\<rparr>)"
    by (simp add: on_properties_changed_def sample_changed_def sample_location_def nmea_of_def
        write_nmea_def sample_payload_def splitlines_def CR_def LF_def is_linebreak_def
        strip_def is_space_def startswith_def os_write_def log_def env_quiet_def
        world_running_def world_init_def)
  have b: "last_nmea (snd (on_properties_changed env_quiet MM_LOC_IFACE sample_changed
      world_running)) = []"
    unfolding a by (simp add: world_running_def world_init_def)
  have c: "last_nmea (snd (poll_nmea env_quiet (Inr sample_location) world_running)) =
      sample_payload"
    by (simp add: poll_nmea_def sample_location_def nmea_of_def
        write_nmea_def sample_payload_def splitlines_def CR_def LF_def is_linebreak_def
        strip_def is_space_def startswith_def os_write_def log_def env_quiet_def
        world_running_def world_init_def)
  from a b c show ?thesis by blast
qed

section \<open>Source discovery: first match and retry budget\<close>

declare find_gps_modem_from.simps [simp del]

text \<open>
  What \<open>int\<close> takes and what it refuses: whitespace around and a sign, single
  underscores between digits; not the separator US or FS beside the digits, which
  \<open>str.strip\<close> would remove, and not more than 4300 digits. A capable object whose
  path does not end in such a number makes discovery raise \<open>ValueError\<close>.
\<close>

lemma py_int_examples:
  "py_int ''12'' = Inr 12"
  "py_int ('' +1_000'' @ [LF]) = Inr 1000"
  "py_int (CHR 0xA0 # ''-007'') = Inr (- 7)"
  "py_int ''1__0'' = Inl ValueError"
  "py_int ''_1'' = Inl ValueError"
  "py_int ''1_'' = Inl ValueError"
  "py_int ''abc'' = Inl ValueError"
  "py_int [] = Inl ValueError"
  "py_int (CHR 0x1F # ''7'') = Inl ValueError"
  "py_int (''7'' @ [CHR 0x1C]) = Inl ValueError"
  by (simp_all add: py_int_def int_strip_def is_int_space_def parse_nat_def
      int_max_str_digits_def is_digit_def digit_val_def LF_def)

lemma parse_nat_too_many_digits:
  "int_max_str_digits < length (filter is_digit s) \<Longrightarrow> parse_nat s = None"
  by (cases s) (auto simp: parse_nat_def)

lemma py_int_too_many_digits:
  assumes "int_max_str_digits < length (filter is_digit (int_strip s))"
  shows "py_int s = Inl ValueError"
proof (cases "int_strip s")
  case Nil
  then show ?thesis by (simp add: py_int_def)
next
  case (Cons c cs)
  have sign: "c = CHR ''-'' \<or> c = CHR ''+'' \<Longrightarrow> \<not> is_digit c"
    by (auto simp: is_digit_def)
  show ?thesis
  proof (cases "c = CHR ''-'' \<or> c = CHR ''+''")
    case True
    with sign assms Cons have "int_max_str_digits < length (filter is_digit cs)"
      by simp
    then have "parse_nat cs = None" by (rule parse_nat_too_many_digits)
    with True Cons show ?thesis by (auto simp: py_int_def)
  next
    case False
    from assms Cons have "parse_nat (c # cs) = None"
      using parse_nat_too_many_digits [of "c # cs"] by simp
    with False Cons show ?thesis by (simp add: py_int_def)
  qed
qed

lemma py_int_4301_zeros: "py_int (replicate 4301 CHR ''0'') = Inl ValueError"
proof -
  have z: "\<not> is_int_space CHR ''0''" "is_digit CHR ''0''"
    by (simp_all add: is_int_space_def is_digit_def)
  have "int_strip (replicate 4301 CHR ''0'') = replicate 4301 CHR ''0''"
    by (simp add: int_strip_def z(1))
  then show ?thesis
    using z(2) by (intro py_int_too_many_digits) (simp add: int_max_str_digits_def)
qed

lemma scan_objects_unparsable_index:
  "scan_objects [(''/org/freedesktop/ModemManager1/Modem/'' @ [CHR 0x1F] @ ''7'',
       [MM_LOC_IFACE \<mapsto> [''Capabilities'' \<mapsto> 0x04]])] = Some (Inl ValueError)"
  by (simp add: py_int_def last_segment_def int_strip_def is_int_space_def parse_nat_def
      int_max_str_digits_def is_digit_def digit_val_def GPS_NMEA_def)

lemma nmea_bit: "(c AND GPS_NMEA \<noteq> 0) = bit c 2" for c :: "32 word"
proof -
  have "(c AND 2 ^ 2 = 0) = (\<not> bit c 2)"
    by (rule and_exp_eq_0_iff_not_bit)
  moreover have "GPS_NMEA = (2 :: 32 word) ^ 2"
    by (simp add: GPS_NMEA_def)
  ultimately show ?thesis by (simp only:) blast
qed

lemma scan_objects_skip:
  "\<not> capable (path, ifaces) \<Longrightarrow> scan_objects ((path, ifaces) # rest) = scan_objects rest"
  by (auto simp: capable_def nmea_bit Let_def split: option.splits)


lemma scan_objects_none: "(\<forall>obj\<in>set objs. \<not> capable obj) \<Longrightarrow> scan_objects objs = None"
proof (induction objs)
  case Nil
  then show ?case by simp
next
  case (Cons obj objs)
  then show ?case by (cases obj) (simp add: scan_objects_skip del: scan_objects.simps)
qed


lemma find_gps_modem_from_barren:
  assumes "0 \<le> delay"
    and "\<forall>i. \<exists>objs. managed_objects e i = Inr objs \<and> scan_objects objs = None"
  shows "find_gps_modem_from e retries delay attempt w =
     (Inl (RuntimeError (no_modem_message retries delay)),
      w\<lparr>enum_calls := enum_calls w + (nat retries - attempt),
        timeline := timeline w @ barren_events retries delay attempt,
        logged := logged w @ barren_logs retries delay attempt\<rparr>)"
proof (induction "nat retries - attempt" arbitrary: attempt w)
  case 0
  then have "\<not> int attempt < retries" by simp
  moreover from 0 have "[attempt..<nat retries] = []" by simp
  ultimately show ?case
    using 0 by (simp add: find_gps_modem_from.simps [of e retries delay attempt w]
        barren_events_def barren_logs_def)
next
  case (Suc n)
  then have lt: "int attempt < retries" by linarith
  from Suc have n: "n = nat retries - Suc attempt" by simp
  from lt have upt: "[attempt..<nat retries] = attempt # [Suc attempt..<nat retries]"
    by (simp add: upt_conv_Cons)
  from assms(2) obtain objs where
    objs: "managed_objects e (enum_calls w) = Inr objs" "scan_objects objs = None"
    by blast
  define w1 where "w1 = w\<lparr>enum_calls := Suc (enum_calls w), timeline := timeline w @ [Enumerate]\<rparr>"
  show ?case
  proof (cases "int attempt < retries - 1")
    case True
    define w2 where "w2 = w1\<lparr>logged := logged w1 @ [NoModemYet delay (int attempt + 1) retries],
        timeline := timeline w1 @ [Sleep delay]\<rparr>"
    have "find_gps_modem_from e retries delay attempt w =
        find_gps_modem_from e retries delay (Suc attempt) w2"
      using lt True objs assms(1)
      by (simp add: find_gps_modem_from.simps [of e retries delay attempt w]
          get_managed_objects_def time_sleep_def log_def w1_def w2_def)
    also have "\<dots> = (Inl (RuntimeError (no_modem_message retries delay)),
      w2\<lparr>enum_calls := enum_calls w2 + (nat retries - Suc attempt),
        timeline := timeline w2 @ barren_events retries delay (Suc attempt),
        logged := logged w2 @ barren_logs retries delay (Suc attempt)\<rparr>)"
      by (rule Suc.hyps(1) [OF n])
    finally show ?thesis
      using True lt Suc.hyps(2)
      by (simp add: w2_def w1_def barren_events_def barren_logs_def upt)
  next
    case False
    have "find_gps_modem_from e retries delay attempt w =
        find_gps_modem_from e retries delay (Suc attempt) w1"
      using lt False objs
      by (simp add: find_gps_modem_from.simps [of e retries delay attempt w]
          get_managed_objects_def w1_def)
    also have "\<dots> = (Inl (RuntimeError (no_modem_message retries delay)),
      w1\<lparr>enum_calls := enum_calls w1 + (nat retries - Suc attempt),
        timeline := timeline w1 @ barren_events retries delay (Suc attempt),
        logged := logged w1 @ barren_logs retries delay (Suc attempt)\<rparr>)"
      by (rule Suc.hyps(1) [OF n])
    finally show ?thesis
      using False lt Suc.hyps(2)
      by (simp add: w1_def barren_events_def barren_logs_def upt)
  qed
qed








lemma enumerations_rounds:
  "length (filter (\<lambda>ev. ev = Enumerate) (concat (replicate n [Enumerate, Sleep d]) @ [Enumerate])) = Suc n"
  by (induction n) simp_all







lemma find_gps_modem_barren:
  assumes "0 \<le> delay"
    and "\<forall>i. \<exists>objs. managed_objects e i = Inr objs \<and> (\<forall>obj\<in>set objs. \<not> capable obj)"
  shows "find_gps_modem e retries delay w =
     (Inl (RuntimeError (no_modem_message retries delay)),
      w\<lparr>enum_calls := enum_calls w + nat retries,
        timeline := timeline w @ barren_events retries delay 0,
        logged := logged w @ barren_logs retries delay 0\<rparr>)"
proof -
  have "\<forall>i. \<exists>objs. managed_objects e i = Inr objs \<and> scan_objects objs = None"
    using assms(2) scan_objects_none by blast
  from find_gps_modem_from_barren [OF assms(1) this, of retries 0 w]
  show ?thesis by (simp add: find_gps_modem_def)
qed





text \<open>Three retries of two seconds: four seconds are slept and six are reported.\<close>

lemma find_gps_modem_three_attempts:
  "find_gps_modem env_quiet 3 2 world_init =
     (Inl (RuntimeError
        (''No modem with GPS NMEA capability found after 6s.'' @ [LF] @
         ''Check:  mmcli -L && mmcli -m <index> --location-status'')),
      world_init\<lparr>enum_calls := 3,
        timeline := [Enumerate, Sleep 2, Enumerate, Sleep 2, Enumerate],
        logged := [NoModemYet 2 1 3, NoModemYet 2 2 3]\<rparr>)"
  by (simp add: find_gps_modem_def find_gps_modem_from.simps get_managed_objects_def
      time_sleep_def log_def env_quiet_def world_init_def no_modem_message_def str_int_def)


section \<open>Capability activation: the retry loop\<close>

declare activate_from.simps [simp del]

lemma activate_from_skip_failures:
  assumes "attempt + k < 10"
    and "\<forall>i<k. setup_res e (length (setup_calls w) + i) = Some (DBusException (name (attempt + i)))"
  shows "activate_from e attempt w =
     activate_from e (attempt + k)
       (w\<lparr>setup_calls := setup_calls w @ replicate k (GPS_NMEA, True),
          timeline := timeline w @ concat (replicate k [SetupCall GPS_NMEA True, Sleep 2]),
          logged := logged w @
            map (\<lambda>i. SetupFailed (name i) (int i + 1)) [attempt..<attempt + k]\<rparr>)"
  using assms
proof (induction k arbitrary: attempt w)
  case 0
  then show ?case by simp
next
  case (Suc k)
  from Suc.prems(2) have
    res: "setup_res e (length (setup_calls w)) = Some (DBusException (name attempt))"
    by force
  define w2 where "w2 = w\<lparr>setup_calls := setup_calls w @ [(GPS_NMEA, True)],
        logged := logged w @ [SetupFailed (name attempt) (int attempt + 1)],
        timeline := timeline w @ [SetupCall GPS_NMEA True, Sleep 2]\<rparr>"
  have step: "activate_from e attempt w = activate_from e (Suc attempt) w2"
    using Suc.prems(1) res
    by (simp add: activate_from.simps [of e attempt w] iface_Setup_def time_sleep_def
        log_def w2_def)
  have a: "Suc attempt + k < 10"
    using Suc.prems(1) by simp
  have b: "\<forall>i<k. setup_res e (length (setup_calls w2) + i) =
      Some (DBusException (name (Suc attempt + i)))"
  proof (intro allI impI)
    fix i assume "i < k"
    then have "Suc i < Suc k" by simp
    with Suc.prems(2) have "setup_res e (length (setup_calls w) + Suc i) =
      Some (DBusException (name (attempt + Suc i)))" by blast
    then show "setup_res e (length (setup_calls w2) + i) =
      Some (DBusException (name (Suc attempt + i)))"
      by (simp add: w2_def)
  qed
  have m: "[attempt..<attempt + Suc k] = attempt # [Suc attempt..<Suc attempt + k]"
    by (simp add: upt_conv_Cons del: upt_Suc)
  show ?case
    unfolding step Suc.IH [OF a b] m
    by (simp add: w2_def replicate_app_Cons_same del: upt_Suc)
qed

text \<open>
  C7. Activation calls \<open>Setup\<close> with the NMEA capability and \<open>True\<close>. When the first
  \<open>k\<close> calls fail on the bus (\<open>k\<close> below 10) each failure is logged with the name
  of its bus error and followed by a sleep of two seconds and a further call. The call
  after them ends the loop: when it succeeds activation returns and no further call is
  made, and when it is the tenth and fails too its exception is raised, with neither a
  log line nor a sleep after it.
\<close>

theorem activate_retries_setup:
  assumes "k < 10"
    and "\<forall>i<k. setup_res e (length (setup_calls w) + i) = Some (DBusException (name i))"
    and "setup_res e (length (setup_calls w) + k) = None \<or>
         k = 9 \<and> setup_res e (length (setup_calls w) + k) = Some (DBusException (name k))"
  shows "activate e w =
     (case setup_res e (length (setup_calls w) + k) of None \<Rightarrow> Inr () | Some ex \<Rightarrow> Inl ex,
      after_setup_attempts name k w)"
proof -
  define wk where "wk = w\<lparr>setup_calls := setup_calls w @ replicate k (GPS_NMEA, True),
          timeline := timeline w @ concat (replicate k [SetupCall GPS_NMEA True, Sleep 2]),
          logged := logged w @ map (\<lambda>i. SetupFailed (name i) (int i + 1)) [0..<k]\<rparr>"
  have "activate e w = activate_from e k wk"
    using activate_from_skip_failures [of 0 k e w name] assms(1,2)
    by (simp add: activate_def wk_def)
  also have "\<dots> =
     (case setup_res e (length (setup_calls w) + k) of None \<Rightarrow> Inr () | Some ex \<Rightarrow> Inl ex,
      wk\<lparr>setup_calls := setup_calls wk @ [(GPS_NMEA, True)],
         timeline := timeline wk @ [SetupCall GPS_NMEA True]\<rparr>)"
  proof -
    have "length (setup_calls wk) = length (setup_calls w) + k"
      by (simp add: wk_def)
    with assms(1,3) show ?thesis
      by (auto simp: activate_from.simps [of e k wk] iface_Setup_def)
  qed
  also have "wk\<lparr>setup_calls := setup_calls wk @ [(GPS_NMEA, True)],
         timeline := timeline wk @ [SetupCall GPS_NMEA True]\<rparr> = after_setup_attempts name k w"
    by (simp add: wk_def after_setup_attempts_def replicate_append_same)
  finally show ?thesis .
qed


theorem activate_retries_setup_witness:
  "activate env_setup_fails_twice world_init =
     (Inr (),
      world_init\<lparr>setup_calls := [(GPS_NMEA, True), (GPS_NMEA, True), (GPS_NMEA, True)],
        timeline := [SetupCall GPS_NMEA True, Sleep 2, SetupCall GPS_NMEA True, Sleep 2,
                     SetupCall GPS_NMEA True],
        logged := [SetupFailed ''org.freedesktop.DBus.Error.UnknownMethod'' 1,
                   SetupFailed ''org.freedesktop.DBus.Error.UnknownMethod'' 2]\<rparr>) \<and>
   activate env_setup_fails world_init =
     (Inl (DBusException ''org.freedesktop.DBus.Error.NoReply''),
      after_setup_attempts (\<lambda>i. ''org.freedesktop.DBus.Error.NoReply'') 9 world_init) \<and>
   length (setup_calls (after_setup_attempts (\<lambda>i. ''org.freedesktop.DBus.Error.NoReply'') 9
     world_init)) = 10 \<and>
   sleeps (timeline (after_setup_attempts (\<lambda>i. ''org.freedesktop.DBus.Error.NoReply'') 9
     world_init)) = [2, 2, 2, 2, 2, 2, 2, 2, 2]"
proof -
  let ?n2 = "\<lambda>i::nat. ''org.freedesktop.DBus.Error.UnknownMethod''"
  let ?n9 = "\<lambda>i::nat. ''org.freedesktop.DBus.Error.NoReply''"
  have a1: "(2::nat) < 10" and b1: "(9::nat) < 10" by simp_all
  have a2: "\<forall>i<2. setup_res env_setup_fails_twice (length (setup_calls world_init) + i) =
      Some (DBusException (?n2 i))"
    by (simp add: env_setup_fails_twice_def world_init_def)
  have a3: "setup_res env_setup_fails_twice (length (setup_calls world_init) + 2) = None \<or>
      2 = 9 \<and> setup_res env_setup_fails_twice (length (setup_calls world_init) + 2) =
        Some (DBusException (?n2 2))"
    by (simp add: env_setup_fails_twice_def world_init_def)
  have b2: "\<forall>i<9. setup_res env_setup_fails (length (setup_calls world_init) + i) =
      Some (DBusException (?n9 i))"
    by (simp add: env_setup_fails_def)
  have b3: "setup_res env_setup_fails (length (setup_calls world_init) + 9) = None \<or>
      9 = 9 \<and> setup_res env_setup_fails (length (setup_calls world_init) + 9) =
        Some (DBusException (?n9 9))"
    by (simp add: env_setup_fails_def)
  have r2: "setup_res env_setup_fails_twice (length (setup_calls world_init) + 2) = None"
    by (simp add: env_setup_fails_twice_def world_init_def)
  have r9: "setup_res env_setup_fails (length (setup_calls world_init) + 9) =
      Some (DBusException (?n9 9))"
    by (simp add: env_setup_fails_def)
  have w2: "after_setup_attempts ?n2 2 world_init =
      world_init\<lparr>setup_calls := [(GPS_NMEA, True), (GPS_NMEA, True), (GPS_NMEA, True)],
        timeline := [SetupCall GPS_NMEA True, Sleep 2, SetupCall GPS_NMEA True, Sleep 2,
                     SetupCall GPS_NMEA True],
        logged := [SetupFailed ''org.freedesktop.DBus.Error.UnknownMethod'' 1,
                   SetupFailed ''org.freedesktop.DBus.Error.UnknownMethod'' 2]\<rparr>"
    by (simp add: after_setup_attempts_def world_init_def numeral_2_eq_2)
  have s9: "sleeps (timeline (after_setup_attempts ?n9 9 world_init)) =
      [2, 2, 2, 2, 2, 2, 2, 2, 2]"
    by (simp add: after_setup_attempts_def world_init_def eval_nat_numeral)
  have l9: "length (setup_calls (after_setup_attempts ?n9 9 world_init)) = 10"
    by (simp add: after_setup_attempts_def world_init_def)
  show ?thesis
    using activate_retries_setup [OF a1 a2 a3] activate_retries_setup [OF b1 b2 b3]
    by (simp only: r2 r9 w2 s9 l9 option.case simp_thms)
qed


section \<open>Release\<close>

lemma cleanup_nothing_created:
  assumes "master_fd w = None" and "\<not> islink_alias w"
  shows "cleanup e w =
     (Inr 0, w\<lparr>logged := logged w @ [ShuttingDown],
               setup_calls := setup_calls w @ [(0, False)],
               timeline := timeline w @ [SetupCall 0 False]\<rparr>)"
  using assms
  by (simp add: cleanup_def cleanup_unlink_def cleanup_close_def seq_def log_def
      iface_Setup_def islink_alias_def Let_def)

lemma islink_after_unlink:
  "islink_alias w \<Longrightarrow> unlink_res e = None \<Longrightarrow>
   os_unlink_alias e w = (Inr (), w\<lparr>alias_path := None\<rparr>)"
  by (auto simp: os_unlink_alias_def islink_alias_def split: option.splits node.splits)

lemma cleanup_once:
  assumes "master_fd w = Some m" and "m \<in> open_fds w" and "unlink_res e = None"
  shows "cleanup e w =
     (Inr 0, w\<lparr>logged := logged w @ [ShuttingDown],
               setup_calls := setup_calls w @ [(0, False)],
               timeline := timeline w @ [SetupCall 0 False],
               alias_path := (if islink_alias w then None else alias_path w),
               open_fds := open_fds w - {m}\<rparr>)"
proof -
  define w2 where "w2 = w\<lparr>logged := logged w @ [ShuttingDown],
               setup_calls := setup_calls w @ [(0, False)],
               timeline := timeline w @ [SetupCall 0 False]\<rparr>"
  have l: "islink_alias w2 = islink_alias w"
    by (simp add: w2_def islink_alias_def)
  have c: "cleanup e w =
      seq (cleanup_unlink e w2) (\<lambda>u w3. seq (cleanup_close w3) (\<lambda>u w4. (Inr 0, w4)))"
    by (simp add: cleanup_def log_def iface_Setup_def Let_def w2_def)
  show ?thesis
  proof (cases "islink_alias w")
    case True
    with l have "cleanup_unlink e w2 = (Inr (), w2\<lparr>alias_path := None\<rparr>)"
      using islink_after_unlink [of w2 e] assms(3) by (simp add: cleanup_unlink_def)
    with True assms(1,2) show ?thesis
      unfolding c by (simp add: seq_def cleanup_close_def os_close_def w2_def)
  next
    case False
    with l have "cleanup_unlink e w2 = (Inr (), w2)"
      by (simp add: cleanup_unlink_def)
    with False assms(1,2) show ?thesis
      unfolding c by (simp add: seq_def cleanup_close_def os_close_def w2_def)
  qed
qed

lemma cleanup_after_close:
  assumes "master_fd w = Some m" and "m \<notin> open_fds w" and "\<not> islink_alias w"
  shows "cleanup e w =
     (Inl OSError, w\<lparr>logged := logged w @ [ShuttingDown],
               setup_calls := setup_calls w @ [(0, False)],
               timeline := timeline w @ [SetupCall 0 False]\<rparr>)"
  using assms
  by (simp add: cleanup_def cleanup_unlink_def cleanup_close_def seq_def log_def
      iface_Setup_def islink_alias_def Let_def os_close_def)

text \<open>
  C4, as amended. \<open>cleanup\<close> is safe to call when nothing was created: with no handle
  and no alias link it tries the deactivation, unlinks nothing, closes nothing and
  exits with status 0. With the handle open, a second signal that enters \<open>cleanup\<close>
  again before the first run has closed the handle changes nothing in the outcome: the
  alias is removed, the handle is closed once and the exit status is 0, as in a single
  run; only the log line and the deactivation call are repeated.
\<close>

theorem cleanup_guarded_release:
  "(master_fd w = None \<and> \<not> islink_alias w \<longrightarrow>
      cleanup e w =
        (Inr 0, w\<lparr>logged := logged w @ [ShuttingDown],
                  setup_calls := setup_calls w @ [(0, False)],
                  timeline := timeline w @ [SetupCall 0 False]\<rparr>)) \<and>
   (master_fd w = Some m \<and> m \<in> open_fds w \<and> unlink_res e = None \<and> b \<noteq> BeforeExit \<longrightarrow>
      (\<exists>w1. cleanup e w = (Inr 0, w1) \<and>
            \<not> islink_alias w1 \<and> m \<notin> open_fds w1 \<and>
            cleanup_reentered e b w =
              (Inr 0, w1\<lparr>logged := logged w @ [ShuttingDown, ShuttingDown],
                         setup_calls := setup_calls w @ [(0, False), (0, False)],
                         timeline := timeline w @ [SetupCall 0 False, SetupCall 0 False]\<rparr>)))"
proof (intro conjI impI)
  assume "master_fd w = None \<and> \<not> islink_alias w"
  then show "cleanup e w =
        (Inr 0, w\<lparr>logged := logged w @ [ShuttingDown],
                  setup_calls := setup_calls w @ [(0, False)],
                  timeline := timeline w @ [SetupCall 0 False]\<rparr>)"
    using cleanup_nothing_created by blast
next
  assume h: "master_fd w = Some m \<and> m \<in> open_fds w \<and> unlink_res e = None \<and> b \<noteq> BeforeExit"
  define w2 where "w2 = w\<lparr>logged := logged w @ [ShuttingDown],
               setup_calls := setup_calls w @ [(0, False)],
               timeline := timeline w @ [SetupCall 0 False]\<rparr>"
  define w1 where "w1 = w2\<lparr>alias_path := (if islink_alias w then None else alias_path w),
               open_fds := open_fds w - {m}\<rparr>"
  have one: "cleanup e w = (Inr 0, w1)"
    using cleanup_once [of w m e] h by (simp add: w1_def w2_def)
  have nl: "\<not> islink_alias w1"
    by (auto simp: w1_def w2_def islink_alias_def split: option.splits node.splits)
  have closed: "m \<notin> open_fds w1"
    by (simp add: w1_def)
  have l2: "islink_alias w2 = islink_alias w" "master_fd w2 = Some m" "m \<in> open_fds w2"
    using h by (simp_all add: w2_def islink_alias_def)
  have pre: "cleanup_reentered e b w =
     (case b of
           BeforeUnlink \<Rightarrow> cleanup e w2
         | BeforeClose \<Rightarrow> seq (cleanup_unlink e w2) (\<lambda>u w3. cleanup e w3)
         | BeforeExit \<Rightarrow>
             seq (cleanup_unlink e w2) (\<lambda>u w3.
               seq (cleanup_close w3) (\<lambda>u w4. cleanup e w4)))"
    by (cases b) (simp_all add: cleanup_reentered_def log_def iface_Setup_def Let_def w2_def)
  have "cleanup_reentered e b w =
              (Inr 0, w1\<lparr>logged := logged w @ [ShuttingDown, ShuttingDown],
                         setup_calls := setup_calls w @ [(0, False), (0, False)],
                         timeline := timeline w @ [SetupCall 0 False, SetupCall 0 False]\<rparr>)"
  proof (cases b)
    case BeforeUnlink
    then show ?thesis
      unfolding pre using cleanup_once [OF l2(2,3), of e] h l2(1)
      by (simp add: w1_def w2_def)
  next
    case BeforeClose
    show ?thesis
    proof (cases "islink_alias w")
      case True
      define w3 where "w3 = w2\<lparr>alias_path := None\<rparr>"
      from True l2 h have u: "cleanup_unlink e w2 = (Inr (), w3)"
        using islink_after_unlink [of w2 e] by (simp add: cleanup_unlink_def w3_def)
      have f3: "master_fd w3 = Some m" "m \<in> open_fds w3" "\<not> islink_alias w3"
        using l2 by (simp_all add: w3_def islink_alias_def)
      from BeforeClose True show ?thesis
        unfolding pre using u cleanup_once [OF f3(1,2), of e] h f3(3)
        by (simp add: seq_def w1_def w2_def w3_def)
    next
      case False
      with l2 have u: "cleanup_unlink e w2 = (Inr (), w2)"
        by (simp add: cleanup_unlink_def)
      from BeforeClose False show ?thesis
        unfolding pre using u cleanup_once [OF l2(2,3), of e] h l2(1)
        by (simp add: seq_def w1_def w2_def)
    qed
  next
    case BeforeExit
    with h show ?thesis by simp
  qed
  with one nl closed show "\<exists>w1. cleanup e w = (Inr 0, w1) \<and>
            \<not> islink_alias w1 \<and> m \<notin> open_fds w1 \<and>
            cleanup_reentered e b w =
              (Inr 0, w1\<lparr>logged := logged w @ [ShuttingDown, ShuttingDown],
                         setup_calls := setup_calls w @ [(0, False), (0, False)],
                         timeline := timeline w @ [SetupCall 0 False, SetupCall 0 False]\<rparr>)"
    by blast
qed


theorem cleanup_guarded_release_witness:
  "master_fd world_init = None \<and> \<not> islink_alias world_init \<and>
   cleanup env_quiet world_init =
     (Inr 0, world_init\<lparr>logged := logged world_init @ [ShuttingDown],
               setup_calls := setup_calls world_init @ [(0, False)],
               timeline := timeline world_init @ [SetupCall 0 False]\<rparr>) \<and>
   master_fd world_running = Some 3 \<and> 3 \<in> open_fds world_running \<and>
   unlink_res env_quiet = None \<and> BeforeClose \<noteq> BeforeExit \<and>
   (\<exists>w1. cleanup env_quiet world_running = (Inr 0, w1) \<and>
         \<not> islink_alias w1 \<and> 3 \<notin> open_fds w1 \<and>
         cleanup_reentered env_quiet BeforeClose world_running =
           (Inr 0, w1\<lparr>logged := logged world_running @ [ShuttingDown, ShuttingDown],
                      setup_calls := setup_calls world_running @ [(0, False), (0, False)],
                      timeline := timeline world_running @
                        [SetupCall 0 False, SetupCall 0 False]\<rparr>))"
proof -
  have a: "master_fd world_init = None \<and> \<not> islink_alias world_init"
    by (simp add: world_init_def islink_alias_def)
  have b: "master_fd world_running = Some 3 \<and> 3 \<in> open_fds world_running \<and>
      unlink_res env_quiet = None \<and> BeforeClose \<noteq> BeforeExit"
    by (simp add: world_running_def world_init_def env_quiet_def)
  show ?thesis
    using a b cleanup_guarded_release [of world_init env_quiet 3 BeforeClose]
      cleanup_guarded_release [of world_running env_quiet 3 BeforeClose]
    by simp
qed

text \<open>
  C4 as stated fails once the handle has been closed: \<open>master_fd\<close> is never reset, so
  a second invocation, after the first or entered by a second signal between the close
  and the exit, closes the descriptor again, and \<open>os.close\<close> raises \<open>OSError\<close> instead
  of the exit with status 0.
\<close>

theorem cleanup_second_invocation_raises:
  "fst (cleanup env_quiet world_running) = Inr 0 \<and>
   fst (cleanup env_quiet (snd (cleanup env_quiet world_running))) = Inl OSError \<and>
   fst (cleanup_reentered env_quiet BeforeExit world_running) = Inl OSError"
  by (simp add: cleanup_reentered_def cleanup_def cleanup_unlink_def cleanup_close_def seq_def
      log_def iface_Setup_def islink_alias_def os_unlink_alias_def os_close_def Let_def
      env_quiet_def world_running_def world_init_def)

section \<open>Fatal startup errors\<close>

declare gpsdctl_from.simps [simp del]

lemma endpoint_simps [simp]:
  "endpoint (log msg w) = endpoint w"
  "endpoint (w\<lparr>timeline := evs\<rparr>) = endpoint w"
  "endpoint (w\<lparr>enum_calls := n\<rparr>) = endpoint w"
  "endpoint (w\<lparr>setup_calls := sc\<rparr>) = endpoint w"
  "endpoint (w\<lparr>gpsdctl_calls := n\<rparr>) = endpoint w"
  "endpoint (w\<lparr>gpsd_started := b\<rparr>) = endpoint w"
  "endpoint (w\<lparr>poll_armed := b\<rparr>) = endpoint w"
  "endpoint (w\<lparr>event_subscribed := b\<rparr>) = endpoint w"
  "endpoint (w\<lparr>handlers_installed := b\<rparr>) = endpoint w"
  "endpoint (w\<lparr>logged := l\<rparr>) = endpoint w"
  by (simp_all add: endpoint_def log_def)

lemma time_sleep_endpoint: "endpoint (snd (time_sleep d w)) = endpoint w"
  by (simp add: time_sleep_def)

lemma find_gps_modem_from_endpoint:
  "endpoint (snd (find_gps_modem_from e retries delay attempt w)) = endpoint w"
proof (induction e retries delay attempt w rule: find_gps_modem_from.induct)
  case (1 e retries delay attempt w)
  show ?case
    using "1.IH" time_sleep_endpoint
    by (subst find_gps_modem_from.simps)
       (auto simp: get_managed_objects_def time_sleep_def split: sum.splits option.splits prod.splits if_splits)
qed

lemma activate_from_endpoint:
  "endpoint (snd (activate_from e attempt w)) = endpoint w"
proof (induction e attempt w rule: activate_from.induct)
  case (1 e attempt w)
  show ?case
    using "1.IH"
    by (subst activate_from.simps)
       (auto simp: iface_Setup_def time_sleep_def split: sum.splits option.splits prod.splits if_splits exn.splits)
qed

lemma gpsdctl_from_endpoint:
  "endpoint (snd (gpsdctl_from e i w)) = endpoint w"
proof (induction e i w rule: gpsdctl_from.induct)
  case (1 e i w)
  show ?case
    using "1.IH"
    by (subst gpsdctl_from.simps)
       (auto simp: time_sleep_def Let_def split: sum.splits option.splits prod.splits if_splits)
qed

lemma notify_gpsd_endpoint: "endpoint (snd (notify_gpsd e w)) = endpoint w"
  by (simp add: notify_gpsd_def gpsdctl_from_endpoint split: option.splits)


lemma setup_pty_endpoint:
  assumes "openpty_res e = Inr (m, s)" and "m \<noteq> s"
    and "setup_pty e w = (r, w')"
  shows "master_fd w' = Some m \<and> m \<in> open_fds w' \<and>
     (case r of Inr name \<Rightarrow> alias_path w' = Some (Symlink name) | Inl ex \<Rightarrow> True)"
  using assms
  by (auto simp: setup_pty_def seq_def os_close_def os_unlink_alias_def os_symlink_alias_def
      log_def Let_def split: sum.splits option.splits if_splits)


lemma find_gps_modem_endpointD:
  "find_gps_modem e retries delay w = (r, w') \<Longrightarrow> endpoint w' = endpoint w"
  using find_gps_modem_from_endpoint [of e retries delay 0 w] by (simp add: find_gps_modem_def)

lemma activate_endpointD: "activate e w = (r, w') \<Longrightarrow> endpoint w' = endpoint w"
  using activate_from_endpoint [of e 0 w] by (simp add: activate_def)

lemma notify_gpsd_endpointD: "notify_gpsd e w = (r, w') \<Longrightarrow> endpoint w' = endpoint w"
  using notify_gpsd_endpoint [of e w] by simp

lemma main_endpoint:
  assumes "setup_pty e w = (Inr name, w1)"
  shows "endpoint (snd (main e argv w)) = endpoint w1"
proof -
  obtain r2 w2 where sel:
    "(if length argv > 1 then
                  (case py_int (argv ! 1) of
                     Inl ex \<Rightarrow> (Inl ex, w1)
                   | Inr modem_index \<Rightarrow> (Inr (modem_index, modem_path_of modem_index), w1))
                else
                  seq (find_gps_modem e 15 2 w1) (\<lambda>(modem_index, modem_path) w.
                    (Inr (modem_index, modem_path),
                     log (AutoDiscovered modem_index modem_path) w))) = (r2, w2)"
    by fastforce
  have e2: "endpoint w2 = endpoint w1"
  proof (cases "length argv > 1")
    case True
    with sel show ?thesis by (auto split: sum.splits)
  next
    case False
    obtain r w' where f: "find_gps_modem e 15 2 w1 = (r, w')"
      by fastforce
    from find_gps_modem_endpointD [OF f] False sel f show ?thesis
      by (auto simp: seq_def split: sum.splits prod.splits)
  qed
  show ?thesis
  proof (cases "system_bus_res e")
    case (Some ex)
    with assms show ?thesis by (simp add: main_def seq_def)
  next
    case None
    show ?thesis
    proof (cases r2)
      case (Inl ex)
      with assms None sel e2 show ?thesis by (simp add: main_def seq_def)
    next
      case (Inr ip)
      obtain modem_index modem_path where ip: "ip = (modem_index, modem_path)"
        by (cases ip)
      obtain r3 w3 where a: "activate e w2 = (r3, w3)"
        by fastforce
      note e3 = activate_endpointD [OF a]
      show ?thesis
      proof (cases r3)
        case (Inl ex)
        with assms None sel Inr ip a e2 e3 show ?thesis by (simp add: main_def seq_def)
      next
        case r3: (Inr u)
        define w7 where "w7 = (log (NmeaEnabled modem_index modem_path) w3)
          \<lparr>poll_armed := True, event_subscribed := True, handlers_installed := True\<rparr>"
        obtain r8 w8 where n: "notify_gpsd e w7 = (r8, w8)"
          by fastforce
        have e8: "endpoint w8 = endpoint w1"
          using notify_gpsd_endpointD [OF n] e3 e2 by (simp add: w7_def)
        have "snd (main e argv w) = (case r8 of Inl ex \<Rightarrow> w8 | Inr u \<Rightarrow> log Forwarding w8)"
          using assms None sel Inr ip a r3 n
          by (simp add: main_def seq_def Let_def w7_def split: sum.splits)
        with e8 show ?thesis by (simp split: sum.splits)
      qed
    qed
  qed
qed

text \<open>
  C3, as amended. \<open>main\<close> never runs the release: whenever it aborts with an error
  after the endpoint pair was allocated, the controller-side handle is still open, and
  when the alias had been created it is still in place. The release is only installed
  as the handler of the termination signals.
\<close>

theorem main_aborts_without_release:
  assumes "openpty_res e = Inr (m, s)" and "m \<noteq> s"
    and "main e argv w = (Inl ex, w')"
  shows "master_fd w' = Some m \<and> m \<in> open_fds w' \<and>
     (\<forall>name w1. setup_pty e w = (Inr name, w1) \<longrightarrow> alias_path w' = Some (Symlink name))"
proof -
  obtain r w1 where sp: "setup_pty e w = (r, w1)"
    by fastforce
  note ep = setup_pty_endpoint [OF assms(1,2) sp]
  show ?thesis
  proof (cases r)
    case (Inl ex1)
    with sp assms(3) have "w' = w1" by (simp add: main_def seq_def)
    with ep sp Inl show ?thesis by simp
  next
    case (Inr name)
    with sp have "endpoint (snd (main e argv w)) = endpoint w1"
      using main_endpoint by blast
    with assms(3) have "endpoint w' = endpoint w1" by simp
    with ep sp Inr show ?thesis by (simp add: endpoint_def)
  qed
qed


lemma setup_pty_quiet:
  "setup_pty env_quiet world_init =
     (Inr ''/dev/pts/5'',
      world_init\<lparr>master_fd := Some 3, open_fds := {0, 1, 2, 3},
        alias_path := Some (Symlink ''/dev/pts/5''), slave_owner := Some (0, 20),
        slave_mode := Some mode_660, logged := [PtySlave ''/dev/pts/5'']\<rparr>)"
  by (auto simp: setup_pty_def seq_def os_close_def os_unlink_alias_def os_symlink_alias_def
      islink_alias_def exists_alias_def log_def Let_def env_quiet_def world_init_def)

lemma main_discovery_exhausted:
  "main env_quiet argv_auto world_init =
     (Inl (RuntimeError (no_modem_message 15 2)),
      world_init\<lparr>master_fd := Some 3, open_fds := {0, 1, 2, 3},
        alias_path := Some (Symlink ''/dev/pts/5''), slave_owner := Some (0, 20),
        slave_mode := Some mode_660,
        enum_calls := 15,
        timeline := barren_events 15 2 0,
        logged := PtySlave ''/dev/pts/5'' # barren_logs 15 2 0\<rparr>)"
proof -
  have b: "\<forall>i. \<exists>objs. managed_objects env_quiet i = Inr objs \<and>
      (\<forall>obj\<in>set objs. \<not> capable obj)"
    by (simp add: env_quiet_def)
  have s: "system_bus_res env_quiet = None"
    by (simp add: env_quiet_def)
  show ?thesis
    unfolding main_def argv_auto_def setup_pty_quiet
    by (simp add: seq_def s find_gps_modem_barren [OF _ b] world_init_def)
qed


theorem main_aborts_without_release_witness:
  "openpty_res env_quiet = Inr (3, 4) \<and> (3::nat) \<noteq> 4 \<and>
   main env_quiet argv_auto world_init =
     (Inl (RuntimeError (no_modem_message 15 2)), snd (main env_quiet argv_auto world_init)) \<and>
   master_fd (snd (main env_quiet argv_auto world_init)) = Some 3 \<and>
   3 \<in> open_fds (snd (main env_quiet argv_auto world_init)) \<and>
   fst (setup_pty env_quiet world_init) = Inr ''/dev/pts/5'' \<and>
   alias_path (snd (main env_quiet argv_auto world_init)) = Some (Symlink ''/dev/pts/5'')"
proof -
  have 1: "openpty_res env_quiet = Inr (3, 4)" by (simp add: env_quiet_def)
  have 2: "(3::nat) \<noteq> 4" by simp
  have 3: "main env_quiet argv_auto world_init =
     (Inl (RuntimeError (no_modem_message 15 2)), snd (main env_quiet argv_auto world_init))"
    by (simp add: main_discovery_exhausted)
  have 4: "setup_pty env_quiet world_init =
     (Inr ''/dev/pts/5'', snd (setup_pty env_quiet world_init))"
    by (simp add: setup_pty_quiet)
  have 5: "fst (setup_pty env_quiet world_init) = Inr ''/dev/pts/5''"
    by (simp add: setup_pty_quiet)
  show ?thesis
    using 1 2 3 4 5 main_aborts_without_release [OF 1 2 3] by blast
qed

text \<open>
  C3 as stated fails: when discovery exhausts its budget the process aborts with the
  alias still linked and the handle still open.
\<close>

theorem main_discovery_failure_keeps_endpoint:
  "fst (main env_quiet argv_auto world_init) = Inl (RuntimeError (no_modem_message 15 2)) \<and>
   alias_path (snd (main env_quiet argv_auto world_init)) = Some (Symlink ''/dev/pts/5'') \<and>
   master_fd (snd (main env_quiet argv_auto world_init)) = Some 3 \<and>
   3 \<in> open_fds (snd (main env_quiet argv_auto world_init))"
  unfolding main_discovery_exhausted by (simp add: world_init_def)

text \<open>
  The other fatal startup errors, and a start that succeeds: a failed group lookup and a
  failed creation of the alias leave the handle open, an exhausted activation leaves
  handle and alias, and with a source index given in quiet surroundings \<open>main\<close> reaches
  the reactor in the state \<open>world_running\<close>.
\<close>

lemma main_group_lookup_fails:
  "main env_no_dialout argv_auto world_init =
     (Inl KeyError, world_init\<lparr>master_fd := Some 3, open_fds := {0, 1, 2, 3}\<rparr>)"
  by (auto simp: main_def setup_pty_def seq_def os_close_def Let_def env_no_dialout_def
      env_quiet_def world_init_def)

lemma main_symlink_fails:
  "main env_symlink_fails argv_auto world_init =
     (Inl OSError, world_init\<lparr>master_fd := Some 3, open_fds := {0, 1, 2, 3},
        slave_owner := Some (0, 20), slave_mode := Some mode_660\<rparr>)"
  by (auto simp: main_def setup_pty_def seq_def os_close_def os_unlink_alias_def
      os_symlink_alias_def islink_alias_def exists_alias_def Let_def env_symlink_fails_def
      env_quiet_def world_init_def)

lemma main_activation_exhausted:
  "fst (main env_setup_fails [''mm-nmea-bridge.py'', ''0''] world_init) =
     Inl (DBusException ''org.freedesktop.DBus.Error.NoReply'') \<and>
   alias_path (snd (main env_setup_fails [''mm-nmea-bridge.py'', ''0''] world_init)) =
     Some (Symlink ''/dev/pts/5'') \<and>
   3 \<in> open_fds (snd (main env_setup_fails [''mm-nmea-bridge.py'', ''0''] world_init))"
  by (simp add: main_def setup_pty_def seq_def os_close_def os_unlink_alias_def
      os_symlink_alias_def islink_alias_def exists_alias_def log_def Let_def
      activate_def activate_from.simps iface_Setup_def time_sleep_def
      py_int_def int_strip_def is_int_space_def parse_nat_def int_max_str_digits_def
      is_digit_def digit_val_def
      env_setup_fails_def env_quiet_def world_init_def)

lemma main_reaches_reactor:
  "main env_quiet [''mm-nmea-bridge.py'', ''0''] world_init = (Inr (), world_running)"
  by (simp add: main_def setup_pty_def seq_def os_close_def os_unlink_alias_def
      os_symlink_alias_def islink_alias_def exists_alias_def log_def Let_def
      activate_def activate_from.simps iface_Setup_def time_sleep_def
      notify_gpsd_def gpsdctl_from.simps modem_path_of_def str_int_def
      py_int_def int_strip_def is_int_space_def parse_nat_def int_max_str_digits_def
      is_digit_def digit_val_def
      env_quiet_def world_init_def world_running_def insert_commute)


end
